theory Spec2Isabelle
  imports Main
begin

section \<open>Python strings\<close>

text \<open>
  A Python \<open>str\<close> is a sequence of Unicode code points; \<open>len\<close> counts code points and
  \<open>strip\<close> removes Unicode whitespace. A string is therefore modelled as a list of code
  points (natural numbers), and \<open>str\<close> embeds an ASCII literal of the source.
\<close>

type_synonym pystr = "nat list"

definition str :: "string \<Rightarrow> pystr" where
  "str s = map of_char s"

text \<open>
  \<open>isspace\<close> is the whitespace test shared by \<open>str.strip()\<close> and by \<open>\s\<close> in a
  \<open>str\<close> pattern of \<open>re\<close>: TAB..CR, FS..US, SPACE, NEL, NBSP, OGHAM SPACE MARK,
  EN QUAD..HAIR SPACE, LINE and PARAGRAPH SEPARATOR, NARROW NBSP, MEDIUM MATHEMATICAL
  SPACE and IDEOGRAPHIC SPACE.
\<close>

definition isspace :: "nat \<Rightarrow> bool" where
  "isspace c =
     ((9 \<le> c \<and> c \<le> 13) \<or> (28 \<le> c \<and> c \<le> 32) \<or> c = 133 \<or> c = 160 \<or> c = 5760 \<or>
      (8192 \<le> c \<and> c \<le> 8202) \<or> c = 8232 \<or> c = 8233 \<or> c = 8239 \<or> c = 8287 \<or>
      c = 12288)"

text \<open>\<open>s.strip()\<close>: whitespace removed at both ends.\<close>

definition py_strip :: "pystr \<Rightarrow> pystr" where
  "py_strip s = rev (dropWhile isspace (rev (dropWhile isspace s)))"

text \<open>\<open>sub in s\<close> on strings: \<open>sub\<close> occurs as a contiguous substring of \<open>s\<close>.\<close>

fun py_in :: "pystr \<Rightarrow> pystr \<Rightarrow> bool" where
  "py_in sub [] = (sub = [])"
| "py_in sub (c # cs) = (take (length sub) (c # cs) = sub \<or> py_in sub cs)"

text \<open>
  \<open>re.sub(r'\s+', ' ', s)\<close>: every maximal run of whitespace becomes one SPACE.
\<close>

function re_sub_ws :: "pystr \<Rightarrow> pystr" where
  "re_sub_ws [] = []"
| "re_sub_ws (c # cs) =
     (if isspace c then 32 # re_sub_ws (dropWhile isspace cs) else c # re_sub_ws cs)"
  by pat_completeness auto
termination
  by (relation "measure length") (auto simp: le_imp_less_Suc length_dropWhile_le)

definition is_upper :: "nat \<Rightarrow> bool" where
  "is_upper c = (65 \<le> c \<and> c \<le> 90)"

definition is_lower :: "nat \<Rightarrow> bool" where
  "is_lower c = (97 \<le> c \<and> c \<le> 122)"

definition is_digit :: "nat \<Rightarrow> bool" where
  "is_digit c = (48 \<le> c \<and> c \<le> 57)"

text \<open>\<open>re.sub(r'[^A-Za-z0-9]', '', s)\<close>: only ASCII letters and digits are kept.\<close>

definition re_sub_non_alnum :: "pystr \<Rightarrow> pystr" where
  "re_sub_non_alnum s = filter (\<lambda>c. is_upper c \<or> is_lower c \<or> is_digit c) s"

text \<open>
  Whitespace in single spaces: every whitespace character of the string is a SPACE and
  the character after it, if any, is not whitespace.
\<close>

fun single_spaced :: "pystr \<Rightarrow> bool" where
  "single_spaced [] = True"
| "single_spaced [c] = (isspace c \<longrightarrow> c = 32)"
| "single_spaced (c # d # cs) = ((isspace c \<longrightarrow> c = 32 \<and> \<not> isspace d) \<and> single_spaced (d # cs))"

section \<open>The regular expressions of the validator\<close>

text \<open>
  The five patterns of \<open>_is_valid_stock_symbol\<close> are all of the shape
  \<open>^ item ... item $\<close>, each item a character class (or an escaped literal) with a
  bounded repetition \<open>{lo,hi}\<close>. \<open>re_match\<close> is \<open>re.match\<close> on such a pattern: the
  match starts at the beginning of the string, every split of the repetitions is tried
  (backtracking), and \<open>$\<close> holds at the end of the string or just before a final newline.
\<close>

datatype char_class = Upper | Digit | Literal nat

fun class_matches :: "char_class \<Rightarrow> nat \<Rightarrow> bool" where
  "class_matches Upper c = is_upper c"
| "class_matches Digit c = is_digit c"
| "class_matches (Literal l) c = (c = l)"

type_synonym regex = "(char_class \<times> nat \<times> nat) list"

fun re_match :: "regex \<Rightarrow> pystr \<Rightarrow> bool" where
  "re_match [] s = (s = [] \<or> s = [10])"
| "re_match ((cls, lo, hi) # items) s =
     list_ex (\<lambda>k. k \<le> length s \<and> list_all (class_matches cls) (take k s) \<and>
                   re_match items (drop k s)) [lo..<Suc hi]"

definition patterns :: "regex list" where
  "patterns =
     [[(Upper, 1, 5)],
      [(Upper, 1, 4), (Literal 46, 1, 1), (Upper, 1, 2)],
      [(Upper, 1, 3), (Digit, 1, 2)],
      [(Upper, 2, 15)],
      [(Upper, 1, 10), (Digit, 1, 2)]]"

section \<open>The validator\<close>

text \<open>
  \<open>_is_valid_stock_symbol\<close> (the leading underscore is dropped). Every operation of
  the body is defined on every \<open>str\<close>, so the function has no error result.
\<close>

definition is_valid_stock_symbol :: "pystr \<Rightarrow> bool" where
  "is_valid_stock_symbol text =
     (if text = [] \<or> length text > 50 then False
      else let clean_text = py_strip text in
        if clean_text = [] then False
        else if py_in (str '' '') clean_text
          then 3 \<le> length clean_text \<and> length clean_text \<le> 50
        else let symbol_text = re_sub_non_alnum clean_text in
          if symbol_text = [] then False
          else list_ex (\<lambda>pattern. re_match pattern symbol_text) patterns)"

text \<open>
  The symbol rule as the specification words it, for comparison with the code. The
  letters and digits are given by their alphabets; \<open>spec_stripped\<close> keeps the ASCII
  letters and digits of a text; \<open>spec_trimmed_form text clean\<close> says that \<open>clean\<close>
  is \<open>text\<close> without its leading and trailing whitespace (what is cut off is
  whitespace, and neither end of what is left is); a pattern is a run of
  \<open>lo\<close> to \<open>hi\<close> characters of one kind, or runs following one another.
\<close>

definition spec_uppercase_letter :: "nat \<Rightarrow> bool" where
  "spec_uppercase_letter c = (c \<in> set (str ''ABCDEFGHIJKLMNOPQRSTUVWXYZ''))"

definition spec_lowercase_letter :: "nat \<Rightarrow> bool" where
  "spec_lowercase_letter c = (c \<in> set (str ''abcdefghijklmnopqrstuvwxyz''))"

definition spec_decimal_digit :: "nat \<Rightarrow> bool" where
  "spec_decimal_digit c = (c \<in> set (str ''0123456789''))"

definition spec_stripped :: "pystr \<Rightarrow> pystr" where
  "spec_stripped s =
     filter (\<lambda>c. spec_uppercase_letter c \<or> spec_lowercase_letter c \<or> spec_decimal_digit c) s"

definition spec_trimmed_form :: "pystr \<Rightarrow> pystr \<Rightarrow> bool" where
  "spec_trimmed_form text clean =
     (\<exists>lead trail. text = lead @ clean @ trail \<and> list_all isspace lead \<and>
        list_all isspace trail \<and>
        list_all (\<lambda>c. \<not> isspace c) (take 1 clean) \<and>
        list_all (\<lambda>c. \<not> isspace c) (take 1 (rev clean)))"

definition spec_run :: "(nat \<Rightarrow> bool) \<Rightarrow> nat \<Rightarrow> nat \<Rightarrow> pystr \<Rightarrow> bool" where
  "spec_run P lo hi s = (lo \<le> length s \<and> length s \<le> hi \<and> list_all P s)"

definition spec_pattern1 :: "pystr \<Rightarrow> bool" where
  "spec_pattern1 s = spec_run spec_uppercase_letter 1 5 s"

definition spec_pattern2 :: "pystr \<Rightarrow> bool" where
  "spec_pattern2 s =
     (\<exists>a b. s = a @ 46 # b \<and> spec_run spec_uppercase_letter 1 4 a \<and>
        spec_run spec_uppercase_letter 1 2 b)"

definition spec_pattern3 :: "pystr \<Rightarrow> bool" where
  "spec_pattern3 s =
     (\<exists>a b. s = a @ b \<and> spec_run spec_uppercase_letter 1 3 a \<and> spec_run spec_decimal_digit 1 2 b)"

definition spec_pattern4 :: "pystr \<Rightarrow> bool" where
  "spec_pattern4 s = spec_run spec_uppercase_letter 2 15 s"

definition spec_pattern5 :: "pystr \<Rightarrow> bool" where
  "spec_pattern5 s =
     (\<exists>a b. s = a @ b \<and> spec_run spec_uppercase_letter 1 10 a \<and>
        spec_run spec_decimal_digit 1 2 b)"

definition spec_symbol_accepted :: "pystr \<Rightarrow> bool" where
  "spec_symbol_accepted s =
     (s \<noteq> [] \<and> (spec_pattern1 s \<or> spec_pattern2 s \<or> spec_pattern3 s \<or> spec_pattern4 s \<or>
        spec_pattern5 s))"

section \<open>Exceptions and external collaborators\<close>

text \<open>
  The handler of \<open>get_stocks_from_url\<close> inspects \<open>str(e)\<close>, so an exception is
  modelled with its text. \<open>AttributeError\<close> is the one exception the code itself can
  raise: \<open>.lower()\<close> on the \<open>None\<close> that \<open>urlparse(url).hostname\<close> gives for a URL
  without a host. Every other exception comes from a collaborator.
\<close>

datatype py_error = AttributeError | Exception pystr

fun exc_str :: "py_error \<Rightarrow> pystr" where
  "exc_str AttributeError =
     39 # str ''NoneType'' @ 39 # str '' object has no attribute '' @ 39 # str ''lower'' @ [39]"
| "exc_str (Exception msg) = msg"

text \<open>
  A node of the parsed document, as far as the code looks at it: \<open>get_text()\<close> and
  \<open>select(selector)\<close>, which returns the matching descendants or raises. The CSS engine
  is not part of the repository, so a document is any assignment of results to queries.
\<close>

datatype element =
  Element (get_text: pystr) (select: "string \<Rightarrow> py_error + element list")

record response =
  status_code :: int
  content :: "nat list"

text \<open>
  The collaborators of one extraction: the primary request of \<open>get_stocks_from_url\<close>,
  the later request of \<open>_get_stocks_with_fallback\<close> (other headers, another moment),
  the HTML parser, \<open>urlparse(url).hostname\<close> (which may raise, or give \<open>None\<close>) and
  \<open>str.lower\<close> (Unicode case mapping). Logging is not modelled.
\<close>

record env =
  requests_get :: "pystr \<Rightarrow> py_error + response"
  requests_get_fallback :: "pystr \<Rightarrow> py_error + response"
  BeautifulSoup :: "nat list \<Rightarrow> py_error + element"
  urlparse_hostname :: "pystr \<Rightarrow> py_error + pystr option"
  str_lower :: "pystr \<Rightarrow> pystr"

section \<open>Selector resolution\<close>

text \<open>\<open>self.default_selectors\<close>, in the insertion order of the dict.\<close>

definition default_selectors :: "(string \<times> string list) list" where
  "default_selectors =
     [(''finviz.com'', [''.screener-link'', ''.screener-body-cell'']),
      (''yahoo.com'', [''.ticker'', ''.symbol'']),
      (''marketwatch.com'', [''.symbol'', ''.ticker'']),
      (''seekingalpha.com'', [''.symbol'', ''.ticker'']),
      (''stocktwits.com'', [''.symbol'', ''.ticker'']),
      (''scanx.trade'',
        [''table tbody tr td:first-child'', ''tr td:first-child'', ''td:first-child'',
         ''.stock-name'', ''[data-stock-name]'', ''td''])]"

text \<open>\<open>urlparse(url).hostname.lower()\<close>.\<close>

definition url_domain :: "env \<Rightarrow> pystr \<Rightarrow> py_error + pystr" where
  "url_domain e url =
     (case urlparse_hostname e url of
        Inl err \<Rightarrow> Inl err
      | Inr None \<Rightarrow> Inl AttributeError
      | Inr (Some hostname) \<Rightarrow> Inr (str_lower e hostname))"

fun selectors_for :: "(string \<times> string list) list \<Rightarrow> pystr \<Rightarrow> string list" where
  "selectors_for [] domain =
     [''.stock-symbol'', ''.ticker'', ''.symbol'', ''[data-symbol]'', ''.stock'',
      ''.ticker-symbol'']"
| "selectors_for ((key, selectors) # rest) domain =
     (if py_in (str key) domain then selectors else selectors_for rest domain)"

definition get_default_selectors :: "env \<Rightarrow> pystr \<Rightarrow> py_error + string list" where
  "get_default_selectors e url =
     (case url_domain e url of
        Inl err \<Rightarrow> Inl err
      | Inr domain \<Rightarrow> Inr (selectors_for default_selectors domain))"

section \<open>Extraction\<close>

definition stock_name_selector :: string where
  \<open>stock_name_selector = ''[class*="stock"], [class*="name"], [data-stock]''\<close>

text \<open>
  The test of Methods 1 and 2 of \<open>_extract_from_scanx\<close> on one stripped text: the names
  it appends to \<open>stocks\<close> (one or none).
\<close>

definition scanx_name :: "pystr \<Rightarrow> pystr list" where
  "scanx_name text =
     (if text \<noteq> [] \<and> length text > 3
      then let clean_name = py_strip (re_sub_ws text) in
        if py_in (str '' '') clean_name \<and> length clean_name \<ge> 5 then [clean_name] else []
      else [])"

text \<open>The test of Method 3 on one stripped text.\<close>

definition scanx_potential :: "pystr \<Rightarrow> pystr list" where
  "scanx_potential text =
     (if text \<noteq> [] \<and> 10 < length text \<and> length text < 100
      then if py_in (str '' '') text \<and>
              (py_in (str ''NSE'') text \<or> py_in (str ''BSE'') text \<or> py_in (str ''&'') text)
        then let clean_name = py_strip (re_sub_ws text) in
          if length clean_name \<ge> 5 then [clean_name] else []
        else []
      else [])"

text \<open>
  The loop of Method 1 over the table rows. \<open>row.select('td')\<close> may raise; the whole
  body of \<open>_extract_from_scanx\<close> is inside one \<open>try\<close>, so the loop stops there and the
  names appended so far are what the method returns.
\<close>

fun scanx_rows :: "element list \<Rightarrow> pystr list \<Rightarrow> pystr list \<times> py_error option" where
  "scanx_rows [] stocks = (stocks, None)"
| "scanx_rows (row # rows) stocks =
     (case select row ''td'' of
        Inl err \<Rightarrow> (stocks, Some err)
      | Inr [] \<Rightarrow> scanx_rows rows stocks
      | Inr (cell # _) \<Rightarrow> scanx_rows rows (stocks @ scanx_name (py_strip (get_text cell))))"

definition extract_from_scanx :: "element \<Rightarrow> pystr list" where
  "extract_from_scanx soup =
     (case select soup ''table tbody tr'' of
        Inl err \<Rightarrow> []
      | Inr table_rows \<Rightarrow>
          (case scanx_rows table_rows [] of
             (stocks, Some err) \<Rightarrow> stocks
           | (stocks, None) \<Rightarrow>
               if stocks \<noteq> [] then stocks
               else (case select soup stock_name_selector of
                  Inl err \<Rightarrow> stocks
                | Inr stock_elements \<Rightarrow>
                    let stocks2 = stocks @
                          concat (map (\<lambda>el. scanx_name (py_strip (get_text el))) stock_elements)
                    in if stocks2 \<noteq> [] then stocks2
                       else (case select soup ''td, div, span'' of
                          Inl err \<Rightarrow> stocks2
                        | Inr all_text_elements \<Rightarrow>
                            stocks2 @ concat (map (\<lambda>el. scanx_potential (py_strip (get_text el)))
                                                  all_text_elements)))))"

text \<open>
  The stripped texts of the elements that pass the validator, in document order: what
  the loops of the selector stage and of \<open>_extract_from_tables\<close> append.
\<close>

definition accepted_texts :: "element list \<Rightarrow> pystr list" where
  "accepted_texts elements =
     filter is_valid_stock_symbol (map (\<lambda>el. py_strip (get_text el)) elements)"

text \<open>
  The row loop of \<open>_extract_from_tables\<close>: the first cell, then \<open>cells[1]\<close> and
  \<open>cells[2]\<close> where they exist (\<open>range(1, min(len(cells), 3))\<close>).
\<close>

fun table_rows :: "element list \<Rightarrow> pystr list \<Rightarrow> pystr list \<times> py_error option" where
  "table_rows [] stocks = (stocks, None)"
| "table_rows (row # rows) stocks =
     (case select row ''td, th'' of
        Inl err \<Rightarrow> (stocks, Some err)
      | Inr [] \<Rightarrow> table_rows rows stocks
      | Inr (cell # others) \<Rightarrow>
          table_rows rows
            (stocks @ accepted_texts [cell] @
               accepted_texts (take (min (length (cell # others)) 3 - 1) others)))"

definition extract_from_tables :: "element \<Rightarrow> pystr list" where
  "extract_from_tables soup =
     (case select soup ''tr'' of
        Inl err \<Rightarrow> []
      | Inr rows \<Rightarrow>
          (case table_rows rows [] of
             (stocks, Some err) \<Rightarrow> stocks
           | (stocks, None) \<Rightarrow>
               if stocks = []
               then (case select soup stock_name_selector of
                  Inl err \<Rightarrow> stocks
                | Inr stock_name_elements \<Rightarrow> stocks @ accepted_texts stock_name_elements)
               else stocks))"

text \<open>
  The selector loop of \<open>get_stocks_from_url\<close> (\<open>for selector in selectors\<close>), with
  \<open>stocks\<close> as it stands when the loop is entered. A query that raises is skipped
  (\<open>except ... continue\<close>); the loop breaks after the first selector that leaves
  \<open>stocks\<close> non-empty.
\<close>

fun selector_loop :: "element \<Rightarrow> string list \<Rightarrow> pystr list \<Rightarrow> pystr list" where
  "selector_loop soup [] stocks = stocks"
| "selector_loop soup (selector # selectors) stocks =
     (case select soup selector of
        Inl err \<Rightarrow> selector_loop soup selectors stocks
      | Inr elements \<Rightarrow>
          let stocks' = stocks @ accepted_texts elements
          in if stocks' \<noteq> [] then stocks' else selector_loop soup selectors stocks')"

text \<open>
  What one selector contributes in that loop: the accepted texts of its matches, and
  nothing when the query raises.
\<close>

definition selector_yield :: "element \<Rightarrow> string \<Rightarrow> pystr list" where
  "selector_yield soup selector =
     (case select soup selector of Inl err \<Rightarrow> [] | Inr elements \<Rightarrow> accepted_texts elements)"

text \<open>
  \<open>_get_stocks_with_fallback\<close>: a second request; on status 200 the scanX extraction of
  the page, whatever the domain. Every exception is caught.
\<close>

definition get_stocks_with_fallback :: "env \<Rightarrow> pystr \<Rightarrow> pystr list" where
  "get_stocks_with_fallback e url =
     (case requests_get_fallback e url of
        Inl err \<Rightarrow> []
      | Inr resp \<Rightarrow>
          if status_code resp = 200
          then (case BeautifulSoup e (content resp) of
                  Inl err \<Rightarrow> []
                | Inr soup \<Rightarrow> extract_from_scanx soup)
          else [])"

text \<open>
  The statements of \<open>get_stocks_from_url\<close> under \<open>if response.status_code == 200\<close>,
  after the parse. \<open>list(set(stocks))\<close> is a list of the distinct names in an order
  Python does not fix; \<open>remdups\<close> stands for it, and the theorems below speak of the
  set of the result only.
\<close>

definition extract_page :: "env \<Rightarrow> pystr \<Rightarrow> element \<Rightarrow> py_error + pystr list" where
  "extract_page e url soup =
     (case url_domain e url of
        Inl err \<Rightarrow> Inl err
      | Inr domain \<Rightarrow>
          let stocks = (if py_in (str ''scanx.trade'') domain then extract_from_scanx soup else [])
          in if py_in (str ''scanx.trade'') domain \<and> stocks \<noteq> [] then Inr (remdups stocks)
             else (case get_default_selectors e url of
                Inl err \<Rightarrow> Inl err
              | Inr selectors \<Rightarrow>
                  let stocks1 = selector_loop soup selectors stocks;
                      stocks2 = (if stocks1 = [] then stocks1 @ extract_from_tables soup
                                 else stocks1)
                  in Inr (remdups stocks2)))"

text \<open>The \<open>except Exception as e\<close> of \<open>get_stocks_from_url\<close>.\<close>

definition on_exception :: "env \<Rightarrow> pystr \<Rightarrow> py_error \<Rightarrow> pystr list" where
  "on_exception e url err =
     (if py_in (str ''CORS'') (exc_str err) \<or> py_in (str ''ClientException'') (exc_str err)
      then get_stocks_with_fallback e url
      else [])"

definition get_stocks_from_url :: "env \<Rightarrow> pystr \<Rightarrow> pystr list" where
  "get_stocks_from_url e url =
     (case requests_get e url of
        Inl err \<Rightarrow> on_exception e url err
      | Inr resp \<Rightarrow>
          if status_code resp = 200
          then (case BeautifulSoup e (content resp) of
                  Inl err \<Rightarrow> on_exception e url err
                | Inr soup \<Rightarrow>
                    (case extract_page e url soup of
                       Inl err \<Rightarrow> on_exception e url err
                     | Inr stocks \<Rightarrow> stocks))
          else [])"

section \<open>Snapshot store and diff\<close>

text \<open>
  \<open>self.url_stocks\<close> is a dict from URL to the set of names last seen there.
  \<open>get_new_stocks_for_url\<close> returns \<open>list(new_stocks)\<close>, modelled as the set, together
  with the dict after the call.
\<close>

type_synonym url_stocks = "pystr \<rightharpoonup> pystr set"

definition get_new_stocks_for_url ::
  "env \<Rightarrow> url_stocks \<Rightarrow> pystr \<Rightarrow> pystr set \<times> url_stocks" where
  "get_new_stocks_for_url e store url =
     (let current_stocks = set (get_stocks_from_url e url);
          last_stocks = (case store url of None \<Rightarrow> {} | Some s \<Rightarrow> s);
          new_stocks = current_stocks - last_stocks
      in (new_stocks, if current_stocks \<noteq> {} then store(url \<mapsto> current_stocks) else store))"

section \<open>Message formatting\<close>

text \<open>\<open>str(n)\<close> for a non-negative integer: its decimal digits.\<close>

function str_nat :: "nat \<Rightarrow> pystr" where
  "str_nat n = (if n < 10 then [48 + n] else str_nat (n div 10) @ [48 + n mod 10])"
  by pat_completeness auto
termination
  by (relation "measure id") auto

declare str_nat.simps [simp del]

text \<open>\<open>sep.join(parts)\<close>.\<close>

fun join :: "pystr \<Rightarrow> pystr list \<Rightarrow> pystr" where
  "join sep [] = []"
| "join sep [p] = p"
| "join sep (p # q # ps) = p @ sep @ join sep (q # ps)"

text \<open>How an f-string renders \<open>urlparse(url).hostname\<close>: the host, or \<open>None\<close>.\<close>

definition format_domain :: "pystr option \<Rightarrow> pystr" where
  "format_domain domain = (case domain of None \<Rightarrow> str ''None'' | Some hostname \<Rightarrow> hostname)"

text \<open>
  A reading of the clock, as \<open>datetime.now()\<close> returns it, and
  \<open>strftime('%Y-%m-%d %H:%M:%S')\<close> on it: the year in decimal (four digits for
  every year a running clock gives) and month, day, hour, minute and second each as two
  digits. The microseconds are not printed.
\<close>

record datetime =
  year :: nat
  month :: nat
  day :: nat
  hour :: nat
  minute :: nat
  second :: nat
  microsecond :: nat

definition two_digits :: "nat \<Rightarrow> pystr" where
  "two_digits n = [48 + n div 10, 48 + n mod 10]"

definition strftime :: "datetime \<Rightarrow> pystr" where
  "strftime t =
     str_nat (year t) @ str ''-'' @ two_digits (month t) @ str ''-'' @ two_digits (day t) @
     str '' '' @ two_digits (hour t) @ str '':'' @ two_digits (minute t) @ str '':'' @
     two_digits (second t)"

text \<open>
  \<open>format_stock_message\<close>. The method reads the clock, so the reading \<open>now\<close> is an
  input of the model. The only statement of the \<open>try\<close> block that can raise is
  \<open>urlparse(url)\<close>; the handler calls it again, so its exception leaves the method.
  The code points are those of the source: 128680 the siren, 128200 the chart, 127760
  the globe, 9200 the alarm clock, 128279 the link, 8226 the bullet, 34 the double
  quote, 10 the newline.
\<close>

definition format_stock_message ::
  "env \<Rightarrow> datetime \<Rightarrow> pystr \<Rightarrow> pystr list \<Rightarrow> py_error + pystr" where
  "format_stock_message e now url new_stocks =
     (case urlparse_hostname e url of
        Inl err \<Rightarrow> Inl err
      | Inr domain \<Rightarrow>
          (case new_stocks of
             [stock] \<Rightarrow>
               Inr (py_strip
                 ([10, 128680] @ str '' <b>New Stock Alert!</b>'' @
                  [10, 10, 128200] @ str '' <b>Stock:</b> '' @ stock @
                  [10, 127760] @ str '' <b>Source:</b> '' @ format_domain domain @
                  [10, 9200] @ str '' <b>Detected:</b> '' @ strftime now @
                  [10, 10] @ str ''<a href='' @ [34] @ url @ [34] @ str ''>'' @ [128279] @
                  str '' View Screener</a>'' @ [10]))
           | _ \<Rightarrow>
               let stocks_list = join [10] (map (\<lambda>stock. [8226, 32] @ stock) (take 10 new_stocks));
                   more_text = (if length new_stocks > 10
                                then [10] @ str ''... and '' @ str_nat (length new_stocks - 10) @
                                     str '' more''
                                else [])
               in Inr (py_strip
                 ([10, 128680] @ str '' <b>'' @ str_nat (length new_stocks) @
                  str '' New Stocks Alert!</b>'' @
                  [10, 10, 128200] @ str '' <b>New Stocks:</b>'' @
                  [10] @ stocks_list @ more_text @
                  [10, 10, 127760] @ str '' <b>Source:</b> '' @ format_domain domain @
                  [10, 9200] @ str '' <b>Detected:</b> '' @ strftime now @
                  [10, 10] @ str ''<a href='' @ [34] @ url @ [34] @ str ''>'' @ [128279] @
                  str '' View Screener</a>'' @ [10]))))"

section \<open>The validator as a method call\<close>

text \<open>
  Python checks nothing before \<open>_is_valid_stock_symbol(self, text)\<close> runs: \<open>text\<close>
  is whatever object the caller passes, every operation of the body can raise on an
  object that does not support it, and the method has \<open>self\<close>, so it could write to
  the snapshots. \<open>is_valid_stock_symbol_call\<close> is the body read that way, on a string,
  on \<open>None\<close> or on an integer, with the snapshots before the call as an argument and
  the snapshots after it in the result: \<open>not text\<close> is the truth value test,
  \<open>len(text)\<close> raises \<open>TypeError\<close> on \<open>None\<close> and on an integer, and
  \<open>text.strip()\<close> raises \<open>AttributeError\<close> on them.
\<close>

datatype pyval = PyStr pystr | PyNone | PyInt int

datatype call_error = TypeError | NoSuchAttribute

definition py_not :: "pyval \<Rightarrow> bool" where
  "py_not v = (case v of PyStr s \<Rightarrow> s = [] | PyNone \<Rightarrow> True | PyInt n \<Rightarrow> n = 0)"

definition py_len :: "pyval \<Rightarrow> call_error + nat" where
  "py_len v = (case v of PyStr s \<Rightarrow> Inr (length s) | PyNone \<Rightarrow> Inl TypeError
     | PyInt n \<Rightarrow> Inl TypeError)"

definition py_strip_method :: "pyval \<Rightarrow> call_error + pystr" where
  "py_strip_method v = (case v of PyStr s \<Rightarrow> Inr (py_strip s) | PyNone \<Rightarrow> Inl NoSuchAttribute
     | PyInt n \<Rightarrow> Inl NoSuchAttribute)"

definition is_valid_stock_symbol_call ::
  "url_stocks \<Rightarrow> pyval \<Rightarrow> (call_error + bool) \<times> url_stocks" where
  "is_valid_stock_symbol_call store text =
     (if py_not text then (Inr False, store)
      else case py_len text of
        Inl err \<Rightarrow> (Inl err, store)
      | Inr n \<Rightarrow>
          if n > 50 then (Inr False, store)
          else case py_strip_method text of
            Inl err \<Rightarrow> (Inl err, store)
          | Inr clean_text \<Rightarrow>
              if clean_text = [] then (Inr False, store)
              else if py_in (str '' '') clean_text
                then (Inr (3 \<le> length clean_text \<and> length clean_text \<le> 50), store)
              else let symbol_text = re_sub_non_alnum clean_text in
                if symbol_text = [] then (Inr False, store)
                else (Inr (list_ex (\<lambda>pattern. re_match pattern symbol_text) patterns), store))"

section \<open>Example inputs\<close>

text \<open>A company name of 28 characters behind 30 spaces of padding: 58 characters.\<close>

definition overlong_padded_name :: pystr where
  "overlong_padded_name = replicate 30 32 @ str ''Bajaj Holdings & Investments''"


text \<open>\<open>str.lower\<close> on ASCII text, for the example environments.\<close>

definition ascii_lower :: "pystr \<Rightarrow> pystr" where
  "ascii_lower s = map (\<lambda>c. if is_upper c then c + 32 else c) s"

text \<open>An element with a text and no descendants.\<close>

definition leaf :: "pystr \<Rightarrow> element" where
  "leaf text = Element text (\<lambda>selector. Inr [])"

definition ok_response :: response where
  "ok_response = \<lparr>status_code = 200, content = []\<rparr>"

text \<open>
  An environment in which the page is fetched with status 200 and parses to \<open>soup\<close>,
  the URL has the given hostname, and the fallback request times out.
\<close>

definition page_env :: "pystr option \<Rightarrow> element \<Rightarrow> env" where
  "page_env hostname soup =
     \<lparr>requests_get = (\<lambda>url. Inr ok_response),
      requests_get_fallback = (\<lambda>url. Inl (Exception (str ''Connection timed out''))),
      BeautifulSoup = (\<lambda>c. Inr soup),
      urlparse_hostname = (\<lambda>url. Inr hostname),
      str_lower = ascii_lower\<rparr>"

text \<open>
  A page of ticker symbols: \<open>.stock-symbol\<close> matches one cell reading \<open>-\<close>,
  \<open>.ticker\<close> matches three cells (AAPL with padding, TSLA, AAPL again) and
  \<open>.symbol\<close> matches one cell reading MSFT.
\<close>

definition symbol_page :: element where
  "symbol_page = Element []
     (\<lambda>selector.
        if selector = ''.stock-symbol'' then Inr [leaf (str ''-'')]
        else if selector = ''.ticker''
          then Inr [leaf (str '' AAPL ''), leaf (str ''TSLA''), leaf (str ''AAPL'')]
        else if selector = ''.symbol'' then Inr [leaf (str ''MSFT'')]
        else Inr [])"

text \<open>A page whose \<open>.stock-symbol\<close> cell holds a name with two spaces inside.\<close>

definition name_page :: element where
  "name_page = Element []
     (\<lambda>selector. if selector = ''.stock-symbol'' then Inr [leaf (str ''Tata  Motors'')]
                  else Inr [])"

text \<open>
  A scanX page with one table row; its first cell holds a company name of 54
  characters, its second a price.
\<close>

definition long_name :: pystr where
  "long_name = str ''Housing Development Finance Corporation Limited Equity''"

definition scanx_table_page :: element where
  "scanx_table_page = Element []
     (\<lambda>selector.
        if selector = ''table tbody tr''
        then Inr [Element []
                    (\<lambda>selector. if selector = ''td''
                                 then Inr [leaf long_name, leaf (str ''2,710.45'')]
                                 else Inr [])]
        else Inr [])"

text \<open>
  A scanX page without a table and without stock-name elements; one \<open>div\<close> holds a
  text of 60 characters with \<open>NSE\<close> in it.
\<close>

definition listing_text :: pystr where
  "listing_text = str ''Bajaj Holdings & Investments Limited NSE Listed Equity Share''"

definition scanx_text_page :: element where
  "scanx_text_page = Element []
     (\<lambda>selector. if selector = ''td, div, span'' then Inr [leaf listing_text] else Inr [])"

text \<open>
  An environment for a URL without a hostname: the primary request fails with a
  connection error whose text repeats the path of the URL, which contains \<open>CORS\<close>; the
  fallback request succeeds and the page parses to \<open>scanx_table_page\<close>.
\<close>

definition cors_env :: env where
  "cors_env =
     \<lparr>requests_get = (\<lambda>url. Inl (Exception (str ''Max retries exceeded with url: /CORS-screen''))),
      requests_get_fallback = (\<lambda>url. Inr ok_response),
      BeautifulSoup = (\<lambda>c. Inr scanx_table_page),
      urlparse_hostname = (\<lambda>url. Inr None),
      str_lower = ascii_lower\<rparr>"

text \<open>An environment in which the primary request is answered with status 404.\<close>

definition not_found_env :: env where
  "not_found_env =
     (page_env (Some (str ''example.com'')) symbol_page)
       \<lparr>requests_get := (\<lambda>url. Inr \<lparr>status_code = 404, content = []\<rparr>)\<rparr>"

text \<open>
  The URL of a scanX screen, and the same kind of URL pasted with a no-break space in
  front: \<open>requests\<close> strips the space and fetches the page, \<open>urlparse\<close> finds neither
  scheme nor host in it.
\<close>

definition scanx_url :: pystr where
  "scanx_url = str ''https://scanx.trade/stock-screener/nifty-500-246593''"

definition pasted_url :: pystr where
  "pasted_url = 160 # str ''https://scanx.trade/CORS-screen''"

text \<open>
  A scanX page whose first cell holds a name with ragged whitespace, as
  \<open>get_text()\<close> gives it for markup broken over several lines.
\<close>

definition ragged_text :: pystr where
  "ragged_text = [32, 10] @ str ''Tata'' @ [10, 32, 32] @ str ''Motors Ltd'' @ [10]"

definition ragged_page :: element where
  "ragged_page = Element []
     (\<lambda>selector.
        if selector = ''table tbody tr''
        then Inr [Element []
                    (\<lambda>selector. if selector = ''td'' then Inr [leaf ragged_text] else Inr [])]
        else Inr [])"

text \<open>
  Three readings of the clock on one morning: two within the same second, and one five
  minutes later.
\<close>

definition half_past_nine :: datetime where
  "half_past_nine = \<lparr>year = 2024, month = 1, day = 15, hour = 9, minute = 30, second = 0,
     microsecond = 120000\<rparr>"

definition half_past_nine_later :: datetime where
  "half_past_nine_later = \<lparr>year = 2024, month = 1, day = 15, hour = 9, minute = 30, second = 0,
     microsecond = 870000\<rparr>"

definition nine_thirty_five :: datetime where
  "nine_thirty_five = \<lparr>year = 2024, month = 1, day = 15, hour = 9, minute = 35, second = 0,
     microsecond = 120000\<rparr>"

text \<open>
  A table page of an ordinary domain: no selector of the domain matches, and the one
  table row has one cell, holding a name with two spaces inside.
\<close>

definition table_name_page :: element where
  "table_name_page = Element []
     (\<lambda>selector.
        if selector = ''tr''
        then Inr [Element []
                    (\<lambda>selector. if selector = ''td, th'' then Inr [leaf (str ''Tata  Motors'')]
                                 else Inr [])]
        else Inr [])"

section \<open>Strings and patterns: basic facts\<close>

lemma py_in_single: "py_in [c] s = (c \<in> set s)"
  by (induction s) auto

lemma py_in_space: "py_in (str '' '') s = (32 \<in> set s)"
  by (simp add: str_def py_in_single)

lemma length_py_strip_le: "length (py_strip s) \<le> length s"
proof -
  have "length (py_strip s) = length (dropWhile isspace (rev (dropWhile isspace s)))"
    by (simp add: py_strip_def)
  also have "\<dots> \<le> length (rev (dropWhile isspace s))" by (rule length_dropWhile_le)
  also have "\<dots> \<le> length s" by (simp add: length_dropWhile_le)
  finally show ?thesis .
qed

lemma py_strip_Nil: "py_strip [] = []"
  by (simp add: py_strip_def)

lemma re_match_Cons:
  "re_match ((cls, lo, hi) # items) s =
     (\<exists>a b. s = a @ b \<and> lo \<le> length a \<and> length a \<le> hi \<and>
        list_all (class_matches cls) a \<and> re_match items b)"
proof
  assume "re_match ((cls, lo, hi) # items) s"
  then obtain k where k: "lo \<le> k" "k \<le> hi" "k \<le> length s"
      "list_all (class_matches cls) (take k s)" "re_match items (drop k s)"
    by (auto simp: list_ex_iff)
  show "\<exists>a b. s = a @ b \<and> lo \<le> length a \<and> length a \<le> hi \<and>
        list_all (class_matches cls) a \<and> re_match items b"
    using k by (intro exI[of _ "take k s"] exI[of _ "drop k s"]) simp
next
  assume "\<exists>a b. s = a @ b \<and> lo \<le> length a \<and> length a \<le> hi \<and>
        list_all (class_matches cls) a \<and> re_match items b"
  then obtain a b where ab: "s = a @ b" "lo \<le> length a" "length a \<le> hi"
      "list_all (class_matches cls) a" "re_match items b"
    by blast
  have "length a \<in> set [lo..<Suc hi]" using ab(2,3) by (simp only: set_upt atLeastLessThan_iff less_Suc_eq_le simp_thms)
  moreover have "length a \<le> length s \<and> list_all (class_matches cls) (take (length a) s) \<and>
      re_match items (drop (length a) s)"
    using ab by simp
  ultimately show "re_match ((cls, lo, hi) # items) s"
    unfolding re_match.simps list_ex_iff by blast
qed

lemma re_match_run:
  assumes "10 \<notin> set s"
  shows "re_match [(cls, lo, hi)] s = spec_run (class_matches cls) lo hi s"
proof
  assume "re_match [(cls, lo, hi)] s"
  then obtain a b where ab: "s = a @ b" "lo \<le> length a" "length a \<le> hi"
      "list_all (class_matches cls) a" "re_match [] b"
    unfolding re_match_Cons by blast
  from ab(1,5) assms have "b = []" by auto
  with ab show "spec_run (class_matches cls) lo hi s" by (simp add: spec_run_def)
next
  assume "spec_run (class_matches cls) lo hi s"
  then have "s = s @ [] \<and> lo \<le> length s \<and> length s \<le> hi \<and>
        list_all (class_matches cls) s \<and> re_match [] []"
    by (simp add: spec_run_def)
  then show "re_match [(cls, lo, hi)] s"
    unfolding re_match_Cons by blast
qed

lemma re_match_length:
  "re_match items s \<Longrightarrow> length s \<le> sum_list (map (\<lambda>(cls, lo, hi). hi) items) + 1"
proof (induction items arbitrary: s)
  case Nil
  then show ?case by auto
next
  case (Cons item items)
  obtain cls lo hi where item: "item = (cls, lo, hi)" by (cases item)
  from Cons.prems obtain a b where ab: "s = a @ b" "length a \<le> hi" "re_match items b"
    unfolding item re_match_Cons by blast
  from Cons.IH[OF ab(3)] ab(1,2) show ?case by (simp add: item)
qed

lemma alnum_no_newline: "10 \<notin> set (re_sub_non_alnum s)"
  by (auto simp: re_sub_non_alnum_def is_upper_def is_lower_def is_digit_def)

lemma is_upper_spec: "is_upper c = spec_uppercase_letter c"
  by (simp add: is_upper_def spec_uppercase_letter_def str_def) arith

lemma is_lower_spec: "is_lower c = spec_lowercase_letter c"
  by (simp add: is_lower_def spec_lowercase_letter_def str_def) arith

lemma is_digit_spec: "is_digit c = spec_decimal_digit c"
  by (simp add: is_digit_def spec_decimal_digit_def str_def) arith

lemma upper_class: "class_matches Upper = spec_uppercase_letter"
  by (rule ext) (simp add: is_upper_spec)

lemma digit_class: "class_matches Digit = spec_decimal_digit"
  by (rule ext) (simp add: is_digit_spec)

lemma re_sub_non_alnum_spec: "re_sub_non_alnum s = spec_stripped s"
  by (simp add: re_sub_non_alnum_def spec_stripped_def is_upper_spec is_lower_spec is_digit_spec)

lemma re_match_pattern1:
  assumes "10 \<notin> set s"
  shows "re_match [(Upper, 1, 5)] s = spec_pattern1 s"
  using re_match_run[OF assms, of Upper 1 5] by (simp only: spec_pattern1_def upper_class)

lemma re_match_pattern4:
  assumes "10 \<notin> set s"
  shows "re_match [(Upper, 2, 15)] s = spec_pattern4 s"
  using re_match_run[OF assms, of Upper 2 15] by (simp only: spec_pattern4_def upper_class)

lemma re_match_two_runs:
  assumes "10 \<notin> set s"
  shows "re_match [(c1, l1, h1), (c2, l2, h2)] s =
     (\<exists>a b. s = a @ b \<and> spec_run (class_matches c1) l1 h1 a \<and> spec_run (class_matches c2) l2 h2 b)"
proof
  assume "re_match [(c1, l1, h1), (c2, l2, h2)] s"
  then obtain a b where ab: "s = a @ b" "l1 \<le> length a" "length a \<le> h1"
      "list_all (class_matches c1) a" "re_match [(c2, l2, h2)] b"
    unfolding re_match_Cons[of c1] by blast
  have "10 \<notin> set b" using assms ab(1) by simp
  then have "spec_run (class_matches c2) l2 h2 b"
    using ab(5) re_match_run[of b c2 l2 h2] by blast
  moreover have "spec_run (class_matches c1) l1 h1 a" using ab(2,3,4) by (simp add: spec_run_def)
  ultimately show "\<exists>a b. s = a @ b \<and> spec_run (class_matches c1) l1 h1 a \<and>
      spec_run (class_matches c2) l2 h2 b"
    using ab(1) by blast
next
  assume "\<exists>a b. s = a @ b \<and> spec_run (class_matches c1) l1 h1 a \<and>
      spec_run (class_matches c2) l2 h2 b"
  then obtain a b where ab: "s = a @ b" "spec_run (class_matches c1) l1 h1 a"
      "spec_run (class_matches c2) l2 h2 b"
    by blast
  have "10 \<notin> set b" using assms ab(1) by simp
  then have "re_match [(c2, l2, h2)] b"
    using ab(3) re_match_run[of b c2 l2 h2] by blast
  moreover have "l1 \<le> length a \<and> length a \<le> h1 \<and> list_all (class_matches c1) a"
    using ab(2) by (simp add: spec_run_def)
  ultimately show "re_match [(c1, l1, h1), (c2, l2, h2)] s"
    unfolding re_match_Cons[of c1] using ab(1) by blast
qed

lemma re_match_pattern3:
  assumes "10 \<notin> set s"
  shows "re_match [(Upper, 1, 3), (Digit, 1, 2)] s = spec_pattern3 s"
  using re_match_two_runs[OF assms, of Upper 1 3 Digit 1 2]
  by (simp only: spec_pattern3_def upper_class digit_class)

lemma re_match_pattern5:
  assumes "10 \<notin> set s"
  shows "re_match [(Upper, 1, 10), (Digit, 1, 2)] s = spec_pattern5 s"
  using re_match_two_runs[OF assms, of Upper 1 10 Digit 1 2]
  by (simp only: spec_pattern5_def upper_class digit_class)

lemma re_match_pattern2:
  assumes "10 \<notin> set s"
  shows "re_match [(Upper, 1, 4), (Literal 46, 1, 1), (Upper, 1, 2)] s = spec_pattern2 s"
proof
  assume "re_match [(Upper, 1, 4), (Literal 46, 1, 1), (Upper, 1, 2)] s"
  then obtain a r where ar: "s = a @ r" "1 \<le> length a" "length a \<le> 4"
      "list_all (class_matches Upper) a" "re_match [(Literal 46, 1, 1), (Upper, 1, 2)] r"
    unfolding re_match_Cons[of Upper 1 4] by blast
  from ar(5) obtain d b where db: "r = d @ b" "1 \<le> length d" "length d \<le> 1"
      "list_all (class_matches (Literal 46)) d" "re_match [(Upper, 1, 2)] b"
    unfolding re_match_Cons[of "Literal 46"] by blast
  from db(2,3,4) have d: "d = [46]" by (cases d) auto
  have "10 \<notin> set b" using assms ar(1) db(1) by simp
  then have "spec_run spec_uppercase_letter 1 2 b"
    using db(5) re_match_run[of b Upper 1 2] by (simp only: upper_class simp_thms)
  moreover have "spec_run spec_uppercase_letter 1 4 a" using ar(2,3,4) by (simp add: spec_run_def upper_class)
  moreover have "s = a @ 46 # b" using ar(1) db(1) d by simp
  ultimately show "spec_pattern2 s" unfolding spec_pattern2_def by blast
next
  assume "spec_pattern2 s"
  then obtain a b where ab: "s = a @ 46 # b" "spec_run spec_uppercase_letter 1 4 a" "spec_run spec_uppercase_letter 1 2 b"
    unfolding spec_pattern2_def by blast
  have "10 \<notin> set b" using assms ab(1) by simp
  then have "re_match [(Upper, 1, 2)] b"
    using ab(3) re_match_run[of b Upper 1 2] by (simp only: upper_class simp_thms)
  then have "re_match [(Literal 46, 1, 1), (Upper, 1, 2)] ([46] @ b)"
    unfolding re_match_Cons[of "Literal 46"] by (intro exI[of _ "[46]"] exI[of _ b]) simp
  moreover have "1 \<le> length a \<and> length a \<le> 4 \<and> list_all (class_matches Upper) a"
    using ab(2) by (simp add: spec_run_def upper_class)
  ultimately show "re_match [(Upper, 1, 4), (Literal 46, 1, 1), (Upper, 1, 2)] s"
    unfolding re_match_Cons[of Upper 1 4] using ab(1) by (intro exI[of _ a] exI[of _ "[46] @ b"]) simp
qed

lemma patterns_spec:
  assumes "10 \<notin> set s"
  shows "list_ex (\<lambda>pattern. re_match pattern s) patterns =
     (spec_pattern1 s \<or> spec_pattern2 s \<or> spec_pattern3 s \<or> spec_pattern4 s \<or> spec_pattern5 s)"
  unfolding patterns_def
  by (simp only: list_ex_Nil_iff list_ex_Cons_iff re_match_pattern1[OF assms] re_match_pattern2[OF assms] re_match_pattern3[OF assms]
      re_match_pattern4[OF assms] re_match_pattern5[OF assms] simp_thms)

lemma is_valid_symbol_branch:
  assumes "length text \<le> 50" and "py_strip text \<noteq> []" and "\<not> py_in (str '' '') (py_strip text)"
  shows "is_valid_stock_symbol text = spec_symbol_accepted (re_sub_non_alnum (py_strip text))"
proof -
  have "text \<noteq> []" using assms(2) by (auto simp: py_strip_Nil)
  then show ?thesis
    using assms patterns_spec[OF alnum_no_newline[of "py_strip text"]]
    by (simp add: is_valid_stock_symbol_def spec_symbol_accepted_def Let_def)
qed

lemmas str_eval = str_def py_strip_def isspace_def

lemma py_strip_leading_spaces: "py_strip (replicate n 32 @ s) = py_strip s"
proof -
  have "dropWhile isspace (replicate n 32 @ s) = dropWhile isspace s"
    by (rule dropWhile_append2) (simp add: isspace_def)
  then show ?thesis by (simp add: py_strip_def)
qed

lemma py_strip_bajaj:
  "py_strip (str ''Bajaj Holdings & Investments'') = str ''Bajaj Holdings & Investments''"
  by (simp add: str_eval)

lemma py_strip_overlong_padded_name:
  "py_strip overlong_padded_name = str ''Bajaj Holdings & Investments''"
  by (simp only: overlong_padded_name_def py_strip_leading_spaces py_strip_bajaj)

lemma is_valid_name_branch:
  assumes "py_in (str '' '') (py_strip text)"
  shows "is_valid_stock_symbol text =
     (length text \<le> 50 \<and> 3 \<le> length (py_strip text) \<and> length (py_strip text) \<le> 50)"
proof -
  have "py_strip text \<noteq> []" using assms by (auto simp: py_in_space)
  moreover from this have "text \<noteq> []" by (auto simp: py_strip_Nil)
  ultimately show ?thesis
    using assms by (auto simp: is_valid_stock_symbol_def Let_def)
qed

lemma is_valid_overlong: "50 < length text \<Longrightarrow> \<not> is_valid_stock_symbol text"
  by (simp add: is_valid_stock_symbol_def)

lemma is_valid_uppercase_symbol:
  assumes "list_all is_upper s" and "1 \<le> length s" and "length s \<le> 5"
  shows "is_valid_stock_symbol s"
proof -
  have nosp: "\<not> isspace c" if "c \<in> set s" for c
    using assms(1) that by (auto simp: list_all_iff is_upper_def isspace_def)
  have ne: "s \<noteq> []" using assms(2) by auto
  have "dropWhile isspace s = s" using nosp ne by (cases s) auto
  moreover have "dropWhile isspace (rev s) = rev s" using nosp ne by (cases "rev s") auto
  ultimately have strip: "py_strip s = s" by (simp add: py_strip_def)
  have alnum: "re_sub_non_alnum s = s"
    using assms(1) by (simp add: re_sub_non_alnum_def list_all_iff)
  have nospace: "\<not> py_in (str '' '') s"
    using nosp[of 32] by (auto simp: py_in_space isspace_def)
  have "is_valid_stock_symbol s = spec_symbol_accepted s"
    using is_valid_symbol_branch[of s] assms(3) ne nospace by (simp add: strip alnum)
  moreover have "spec_pattern1 s"
    using assms by (simp add: spec_pattern1_def spec_run_def is_upper_spec[abs_def])
  ultimately show ?thesis using ne by (simp add: spec_symbol_accepted_def)
qed

lemma is_valid_AAPL: "is_valid_stock_symbol (str ''AAPL'')"
  by (rule is_valid_uppercase_symbol) (simp_all add: str_def is_upper_def)

lemma is_valid_MSFT: "is_valid_stock_symbol (str ''MSFT'')"
  by (rule is_valid_uppercase_symbol) (simp_all add: str_def is_upper_def)

lemma no_pattern_over_16:
  assumes "16 < length s"
  shows "\<not> list_ex (\<lambda>pattern. re_match pattern s) patterns"
proof -
  have "\<not> re_match p s" if "p \<in> set patterns" for p
  proof
    assume "re_match p s"
    from re_match_length[OF this] that assms show False
      by (auto simp: patterns_def)
  qed
  then show ?thesis by (auto simp: list_ex_iff)
qed

lemma not_valid_TOOLONG: "\<not> is_valid_stock_symbol (str ''TOOLONGSTRING123456'')"
proof -
  have strip: "py_strip (str ''TOOLONGSTRING123456'') = str ''TOOLONGSTRING123456''"
    by (simp add: str_eval)
  have alnum: "re_sub_non_alnum (str ''TOOLONGSTRING123456'') = str ''TOOLONGSTRING123456''"
    by (simp add: str_def re_sub_non_alnum_def is_upper_def is_lower_def is_digit_def)
  have nospace: "\<not> py_in (str '' '') (str ''TOOLONGSTRING123456'')"
    by (simp add: py_in_space) (simp add: str_def)
  have "16 < length (str ''TOOLONGSTRING123456'')" by (simp add: str_def)
  from no_pattern_over_16[OF this] show ?thesis
    by (simp add: is_valid_stock_symbol_def Let_def strip alnum nospace)
qed

lemma not_valid_dash: "\<not> is_valid_stock_symbol (str ''-'')"
  by (simp add: is_valid_stock_symbol_def str_eval re_sub_non_alnum_def is_upper_def is_lower_def
      is_digit_def)

section \<open>The validator: names\<close>

text \<open>
  Claim C3, as stated: for every text whose trimmed form contains a space, the validator
  accepts if and only if the trimmed length is between 3 and 50, the over-long test being
  made after trimming. The code makes the over-long test on the raw text, before
  \<open>strip()\<close>: the padded name has a trimmed form of 28 characters with spaces in it,
  and is rejected because its raw length is 58.
\<close>

theorem name_branch_raw_length_counterexample:
  "py_in (str '' '') (py_strip overlong_padded_name) \<and>
   3 \<le> length (py_strip overlong_padded_name) \<and>
   length (py_strip overlong_padded_name) \<le> 50 \<and>
   \<not> is_valid_stock_symbol overlong_padded_name"
proof -
  have "length overlong_padded_name = 58"
    by (simp add: overlong_padded_name_def str_def)
  then have "\<not> is_valid_stock_symbol overlong_padded_name"
    by (simp add: is_valid_stock_symbol_def)
  moreover have "py_in (str '' '') (str ''Bajaj Holdings & Investments'')"
    by (simp add: py_in_space) (simp add: str_def)
  moreover have "length (str ''Bajaj Holdings & Investments'') = 28"
    by (simp add: str_def)
  ultimately show ?thesis
    by (simp add: py_strip_overlong_padded_name)
qed


text \<open>
  Claim C3, amended: for every text whose trimmed form contains a space, the validator
  accepts if and only if the raw length is at most 50 and the trimmed length is between
  3 and 50; the over-long test is made on the raw length.
\<close>

theorem name_branch_accepts_iff:
  "py_in (str '' '') (py_strip text) \<Longrightarrow>
   is_valid_stock_symbol text =
     (length text \<le> 50 \<and> 3 \<le> length (py_strip text) \<and> length (py_strip text) \<le> 50)"
  by (rule is_valid_name_branch)

theorem name_branch_accepts_iff_witness:
  "py_in (str '' '') (py_strip (str ''Bajaj Holdings & Investments'')) \<and>
   is_valid_stock_symbol (str ''Bajaj Holdings & Investments'')"
proof -
  have sp: "py_in (str '' '') (py_strip (str ''Bajaj Holdings & Investments''))"
    unfolding py_strip_bajaj by (simp add: py_in_space) (simp add: str_def)
  have len: "length (str ''Bajaj Holdings & Investments'') = 28"
    by (simp add: str_def)
  show ?thesis
    using sp name_branch_accepts_iff[OF sp] by (simp add: py_strip_bajaj len)
qed

section \<open>The validator: symbols\<close>

lemma spec_trimmed_form_unique:
  assumes "spec_trimmed_form text clean"
  shows "clean = py_strip text"
proof -
  from assms obtain lead trail where decomp: "text = lead @ clean @ trail"
    and lead: "list_all isspace lead" and trail: "list_all isspace trail"
    and front: "list_all (\<lambda>c. \<not> isspace c) (take 1 clean)"
    and rear: "list_all (\<lambda>c. \<not> isspace c) (take 1 (rev clean))"
    unfolding spec_trimmed_form_def by blast
  have drop_lead: "dropWhile isspace (lead @ ys) = dropWhile isspace ys" for ys
    using lead by (intro dropWhile_append2) (simp add: list_all_iff)
  have drop_trail: "dropWhile isspace (rev trail @ ys) = dropWhile isspace ys" for ys
    using trail by (intro dropWhile_append2) (simp add: list_all_iff)
  show ?thesis
  proof (cases clean)
    case Nil
    have "dropWhile isspace trail = []"
      using trail by (induction trail) simp_all
    then have "py_strip text = rev (dropWhile isspace (rev []))"
      by (simp only: py_strip_def decomp Nil append_Nil drop_lead)
    then show ?thesis by (simp add: Nil)
  next
    case (Cons c cs)
    with front have "dropWhile isspace (clean @ trail) = clean @ trail" by simp
    moreover have "dropWhile isspace (rev clean) = rev clean"
    proof -
      obtain r rs where rv: "rev clean = r # rs" using Cons by (cases "rev clean") auto
      from rear have "\<not> isspace r" unfolding rv by simp
      then show ?thesis unfolding rv by simp
    qed
    ultimately show ?thesis
      by (simp add: py_strip_def decomp drop_lead drop_trail)
  qed
qed

lemma is_valid_symbol_spec:
  assumes "length text \<le> 50" and "spec_trimmed_form text clean" and "clean \<noteq> []"
    and "32 \<notin> set clean"
  shows "is_valid_stock_symbol text = spec_symbol_accepted (spec_stripped clean)"
proof -
  have clean: "py_strip text = clean" using spec_trimmed_form_unique[OF assms(2)] by simp
  show ?thesis
    using is_valid_symbol_branch[of "text"] assms(1,3,4)
    by (simp add: clean py_in_space re_sub_non_alnum_spec)
qed

lemma is_valid_stripped_symbol:
  assumes "length text \<le> 50" and "py_strip text = clean" and "clean \<noteq> []"
    and "32 \<notin> set clean" and "re_sub_non_alnum clean = symbol"
    and "list_all is_upper symbol" and "1 \<le> length symbol" and "length symbol \<le> 5"
  shows "is_valid_stock_symbol text"
proof -
  have "spec_pattern1 symbol"
    using assms(6,7,8) by (simp add: spec_pattern1_def spec_run_def is_upper_spec[abs_def])
  moreover have "symbol \<noteq> []" using assms(7) by auto
  ultimately have "spec_symbol_accepted symbol" by (simp add: spec_symbol_accepted_def)
  then show ?thesis
    using is_valid_symbol_branch[of "text"] assms(1,2,3,4,5) by (simp add: py_in_space)
qed

lemmas alnum_eval = re_sub_non_alnum_def is_upper_def is_lower_def is_digit_def

lemma is_valid_padded_A: "is_valid_stock_symbol (str '' A '')"
  by (rule is_valid_stripped_symbol[where clean = "str ''A''" and symbol = "str ''A''"])
     (simp_all add: str_eval alnum_eval)

lemma is_valid_BRK_B: "is_valid_stock_symbol (str ''BRK.B'')"
  by (rule is_valid_stripped_symbol[where clean = "str ''BRK.B''" and symbol = "str ''BRKB''"])
     (simp_all add: str_eval alnum_eval)

lemma is_valid_A_dash_B: "is_valid_stock_symbol (str ''A-B'')"
  by (rule is_valid_stripped_symbol[where clean = "str ''A-B''" and symbol = "str ''AB''"])
     (simp_all add: str_eval alnum_eval)

lemma spec_run_first:
  "spec_run P (Suc lo) hi a \<Longrightarrow> a \<noteq> [] \<and> P (hd a)"
  by (cases a) (auto simp: spec_run_def)

lemma spec_symbol_accepted_first:
  assumes "spec_symbol_accepted s"
  shows "spec_uppercase_letter (hd s)"
proof -
  have one: "spec_run spec_uppercase_letter 1 hi a \<Longrightarrow> a \<noteq> [] \<and> spec_uppercase_letter (hd a)"
    for hi a
    using spec_run_first[of spec_uppercase_letter 0 hi a] by simp
  have two: "spec_run spec_uppercase_letter 2 hi a \<Longrightarrow> a \<noteq> [] \<and> spec_uppercase_letter (hd a)"
    for hi a
    using spec_run_first[of spec_uppercase_letter 1 hi a] by (simp add: numeral_2_eq_2)
  from assms consider "spec_pattern1 s" | "spec_pattern2 s" | "spec_pattern3 s"
    | "spec_pattern4 s" | "spec_pattern5 s"
    unfolding spec_symbol_accepted_def by blast
  then show ?thesis
  proof cases
    case 1
    then show ?thesis using one unfolding spec_pattern1_def by blast
  next
    case 2
    then obtain a b where "s = a @ 46 # b" "spec_run spec_uppercase_letter 1 4 a"
      unfolding spec_pattern2_def by blast
    with one[of 4 a] show ?thesis by (cases a) auto
  next
    case 3
    then obtain a b where "s = a @ b" "spec_run spec_uppercase_letter 1 3 a"
      unfolding spec_pattern3_def by blast
    with one[of 3 a] show ?thesis by (cases a) auto
  next
    case 4
    then show ?thesis using two unfolding spec_pattern4_def by blast
  next
    case 5
    then obtain a b where "s = a @ b" "spec_run spec_uppercase_letter 1 10 a"
      unfolding spec_pattern5_def by blast
    with one[of 10 a] show ?thesis by (cases a) auto
  qed
qed

lemma not_valid_lowercase: "\<not> is_valid_stock_symbol (str ''aapl'')"
proof
  assume valid: "is_valid_stock_symbol (str ''aapl'')"
  have strip: "py_strip (str ''aapl'') = str ''aapl''" by (simp add: str_eval)
  have "is_valid_stock_symbol (str ''aapl'') = spec_symbol_accepted (str ''aapl'')"
    using is_valid_symbol_branch[of "str ''aapl''"]
    by (simp add: strip py_in_space) (simp add: str_def alnum_eval)
  with valid have "spec_uppercase_letter (hd (str ''aapl''))"
    using spec_symbol_accepted_first by blast
  then show False by (simp add: is_upper_spec[symmetric] is_upper_def str_def)
qed

text \<open>
  Claim C4: for every text of at most 50 characters whose trimmed form is non-empty and
  has no space, the validator removes from the trimmed form every character that is not
  an ASCII letter or digit, rejects if nothing remains, and otherwise accepts if and only
  if what remains matches one of the five patterns. The trimmed form
  (\<open>spec_trimmed_form\<close>), the removal (\<open>spec_stripped\<close>) and the patterns
  (\<open>spec_symbol_accepted\<close>) are worded as in the specification, apart from the
  code's \<open>strip\<close>, \<open>re.sub\<close> and \<open>re.match\<close>. \<open>AAPL\<close> and \<open>MSFT\<close> are
  accepted and \<open>TOOLONGSTRING123456\<close> is rejected; so are accepted \<open>A\<close> between
  two spaces, \<open>BRK.B\<close> and \<open>A-B\<close> (the dot and the dash are removed), and
  rejected \<open>-\<close> (nothing remains) and \<open>aapl\<close> (lowercase letters remain and match
  no pattern).
\<close>

theorem symbol_branch_accepts_iff:
  "(\<forall>text clean. length text \<le> 50 \<and> spec_trimmed_form text clean \<and> clean \<noteq> [] \<and>
        32 \<notin> set clean \<longrightarrow>
      is_valid_stock_symbol text = spec_symbol_accepted (spec_stripped clean)) \<and>
   is_valid_stock_symbol (str ''AAPL'') \<and>
   is_valid_stock_symbol (str ''MSFT'') \<and>
   \<not> is_valid_stock_symbol (str ''TOOLONGSTRING123456'') \<and>
   is_valid_stock_symbol (str '' A '') \<and>
   is_valid_stock_symbol (str ''BRK.B'') \<and>
   is_valid_stock_symbol (str ''A-B'') \<and>
   \<not> is_valid_stock_symbol (str ''-'') \<and>
   \<not> is_valid_stock_symbol (str ''aapl'')"
  using is_valid_symbol_spec is_valid_AAPL is_valid_MSFT not_valid_TOOLONG is_valid_padded_A
    is_valid_BRK_B is_valid_A_dash_B not_valid_dash not_valid_lowercase
  by blast

theorem symbol_branch_accepts_iff_witness:
  "length (str '' BRK.B '') \<le> 50 \<and> spec_trimmed_form (str '' BRK.B '') (str ''BRK.B'') \<and>
   str ''BRK.B'' \<noteq> [] \<and> 32 \<notin> set (str ''BRK.B'') \<and>
   spec_stripped (str ''BRK.B'') = str ''BRKB'' \<and>
   is_valid_stock_symbol (str '' BRK.B '') = spec_symbol_accepted (str ''BRKB'')"
proof -
  have "str '' BRK.B '' = [32] @ str ''BRK.B'' @ [32]" by (simp add: str_def)
  moreover have "list_all isspace [32]" by (simp add: isspace_def)
  moreover have "list_all (\<lambda>c. \<not> isspace c) (take 1 (str ''BRK.B''))"
    "list_all (\<lambda>c. \<not> isspace c) (take 1 (rev (str ''BRK.B'')))"
    by (simp_all add: str_def isspace_def)
  ultimately have trimmed: "spec_trimmed_form (str '' BRK.B '') (str ''BRK.B'')"
    unfolding spec_trimmed_form_def by blast
  have hyps: "length (str '' BRK.B '') \<le> 50 \<and> str ''BRK.B'' \<noteq> [] \<and> 32 \<notin> set (str ''BRK.B'')"
    by (simp add: str_def)
  have stripped: "spec_stripped (str ''BRK.B'') = str ''BRKB''"
    by (simp add: re_sub_non_alnum_spec[symmetric]) (simp add: str_def alnum_eval)
  from symbol_branch_accepts_iff trimmed hyps
  have "is_valid_stock_symbol (str '' BRK.B '') =
      spec_symbol_accepted (spec_stripped (str ''BRK.B''))"
    by blast
  with trimmed hyps stripped show ?thesis by simp
qed

section \<open>The validator: totality\<close>

lemma call_on_string:
  "is_valid_stock_symbol_call store (PyStr text) = (Inr (is_valid_stock_symbol text), store)"
  by (simp add: is_valid_stock_symbol_call_def is_valid_stock_symbol_def py_not_def py_len_def
      py_strip_method_def Let_def)

lemma call_on_integer: "is_valid_stock_symbol_call store (PyInt 7) = (Inl TypeError, store)"
  by (simp add: is_valid_stock_symbol_call_def py_not_def py_len_def)

text \<open>
  Claim C8: the validator is pure and total. Called on a string, the method raises
  nothing and returns a boolean, for every string and whatever the snapshots are; the
  boolean is the value of \<open>is_valid_stock_symbol\<close>, a function of the text alone, and
  the snapshots after the call are the snapshots before it. (On an integer the same body
  raises \<open>TypeError\<close>: returning is a fact about strings, not about the type of the
  model.) The result is \<open>False\<close> for the empty string and for every string of 51
  characters.
\<close>

theorem validator_pure_total_rejects_empty_and_overlong:
  "(\<forall>store text. \<exists>b. is_valid_stock_symbol_call store (PyStr text) = (Inr b, store)) \<and>
   (\<forall>store store' text.
      fst (is_valid_stock_symbol_call store (PyStr text)) =
      fst (is_valid_stock_symbol_call store' (PyStr text))) \<and>
   (\<forall>store text.
      is_valid_stock_symbol_call store (PyStr text) = (Inr (is_valid_stock_symbol text), store)) \<and>
   (\<forall>store. is_valid_stock_symbol_call store (PyInt 7) = (Inl TypeError, store)) \<and>
   (\<forall>store. is_valid_stock_symbol_call store (PyStr []) = (Inr False, store)) \<and>
   (\<forall>store text. length text = 51 \<longrightarrow>
      is_valid_stock_symbol_call store (PyStr text) = (Inr False, store)) \<and>
   is_valid_stock_symbol [] = False \<and>
   (\<forall>text. length text = 51 \<longrightarrow> is_valid_stock_symbol text = False)"
proof -
  have empty: "is_valid_stock_symbol [] = False"
    by (simp add: is_valid_stock_symbol_def)
  have overlong: "is_valid_stock_symbol s = False" if "length s = 51" for s
    using that by (simp add: is_valid_stock_symbol_def)
  show ?thesis
    by (simp add: call_on_string call_on_integer empty overlong)
qed

theorem validator_pure_total_rejects_empty_and_overlong_witness:
  "length (replicate 51 (65::nat)) = 51 \<and>
   is_valid_stock_symbol_call [str ''https://example.com/screen'' \<mapsto> {str ''AAPL''}]
     (PyStr (replicate 51 65)) =
     (Inr False, [str ''https://example.com/screen'' \<mapsto> {str ''AAPL''}]) \<and>
   is_valid_stock_symbol (replicate 51 65) = False"
proof -
  have len: "length (replicate 51 (65::nat)) = 51" by simp
  with validator_pure_total_rejects_empty_and_overlong show ?thesis by blast
qed

section \<open>Extraction and diff: basic facts\<close>

lemma diff_empty:
  "set (get_stocks_from_url e url) = {} \<Longrightarrow> get_new_stocks_for_url e store url = ({}, store)"
  by (simp add: get_new_stocks_for_url_def)

lemma diff_nonempty:
  "set (get_stocks_from_url e url) \<noteq> {} \<Longrightarrow>
   get_new_stocks_for_url e store url =
     (set (get_stocks_from_url e url) - (case store url of None \<Rightarrow> {} | Some s \<Rightarrow> s),
      store(url \<mapsto> set (get_stocks_from_url e url)))"
  by (simp add: get_new_stocks_for_url_def Let_def)

lemma selector_loop_skip:
  "\<forall>p\<in>set pre. selector_yield soup p = [] \<Longrightarrow>
   selector_loop soup (pre @ rest) [] = selector_loop soup rest []"
  by (induction pre) (auto simp: selector_yield_def split: sum.splits)

lemma selector_loop_first:
  "selector_yield soup s \<noteq> [] \<Longrightarrow> selector_loop soup (s # post) [] = selector_yield soup s"
  by (auto simp: selector_yield_def split: sum.splits)

lemma selector_loop_short_circuit:
  assumes "\<forall>p\<in>set pre. selector_yield soup p = []" and "selector_yield soup s \<noteq> []"
  shows "selector_loop soup (pre @ s # post) [] = selector_yield soup s"
  using selector_loop_skip[OF assms(1)] selector_loop_first[OF assms(2)] by simp

lemma extract_page_short_circuit:
  assumes "url_domain e url = Inr domain"
    and "py_in (str ''scanx.trade'') domain \<longrightarrow> extract_from_scanx soup = []"
    and "selectors_for default_selectors domain = pre @ s # post"
    and "\<forall>p\<in>set pre. selector_yield soup p = []" and "selector_yield soup s \<noteq> []"
  shows "extract_page e url soup = Inr (remdups (selector_yield soup s))"
  using assms(1,2,3,5) selector_loop_short_circuit[OF assms(4,5), of post]
  by (simp add: extract_page_def get_default_selectors_def Let_def)

subsection \<open>The example pages\<close>

lemma page_env_fields:
  "requests_get (page_env hostname soup) url = Inr ok_response"
  "requests_get_fallback (page_env hostname soup) url =
     Inl (Exception (str ''Connection timed out''))"
  "BeautifulSoup (page_env hostname soup) c = Inr soup"
  "urlparse_hostname (page_env hostname soup) url = Inr hostname"
  "str_lower (page_env hostname soup) = ascii_lower"
  by (simp_all add: page_env_def)

lemma domain_example:
  "url_domain (page_env (Some (str ''example.com'')) soup) url = Inr (str ''example.com'')"
  by (simp add: url_domain_def page_env_fields ascii_lower_def str_def is_upper_def)

lemma not_scanx_example: "\<not> py_in (str ''scanx.trade'') (str ''example.com'')"
  by (simp add: str_def)

lemma selectors_example: "selectors_for default_selectors (str ''example.com'') =
  [''.stock-symbol'', ''.ticker'', ''.symbol'', ''[data-symbol]'', ''.stock'', ''.ticker-symbol'']"
  by (simp add: default_selectors_def str_def)

lemma is_valid_TSLA: "is_valid_stock_symbol (str ''TSLA'')"
  by (rule is_valid_uppercase_symbol) (simp_all add: str_def is_upper_def)

lemma symbol_page_stock_symbol: "selector_yield symbol_page ''.stock-symbol'' = []"
proof -
  have "py_strip (str ''-'') = str ''-''" by (simp add: str_eval)
  then show ?thesis
    by (simp add: selector_yield_def symbol_page_def accepted_texts_def leaf_def not_valid_dash)
qed

lemma symbol_page_ticker:
  "selector_yield symbol_page ''.ticker'' = [str ''AAPL'', str ''TSLA'', str ''AAPL'']"
proof -
  have "py_strip (str '' AAPL '') = str ''AAPL''" "py_strip (str ''TSLA'') = str ''TSLA''"
    "py_strip (str ''AAPL'') = str ''AAPL''"
    by (simp_all add: str_eval)
  then show ?thesis
    by (simp add: selector_yield_def symbol_page_def accepted_texts_def leaf_def is_valid_AAPL
        is_valid_TSLA)
qed

lemma symbol_page_symbol: "selector_yield symbol_page ''.symbol'' = [str ''MSFT'']"
proof -
  have "py_strip (str ''MSFT'') = str ''MSFT''" by (simp add: str_eval)
  then show ?thesis
    by (simp add: selector_yield_def symbol_page_def accepted_texts_def leaf_def is_valid_MSFT)
qed

lemma get_stocks_page_env:
  "get_stocks_from_url (page_env hostname soup) url =
     (case extract_page (page_env hostname soup) url soup of
        Inl err \<Rightarrow> on_exception (page_env hostname soup) url err
      | Inr stocks \<Rightarrow> stocks)"
  by (simp add: get_stocks_from_url_def page_env_fields ok_response_def)

lemma symbol_page_extraction:
  "get_stocks_from_url (page_env (Some (str ''example.com'')) symbol_page) url =
     [str ''TSLA'', str ''AAPL'']"
proof -
  have "extract_page (page_env (Some (str ''example.com'')) symbol_page) url symbol_page =
      Inr (remdups (selector_yield symbol_page ''.ticker''))"
    by (rule extract_page_short_circuit[where pre = "[''.stock-symbol'']", OF domain_example])
       (simp_all add: not_scanx_example selectors_example symbol_page_stock_symbol
          symbol_page_ticker)
  then show ?thesis
    by (simp add: get_stocks_page_env symbol_page_ticker) (simp add: str_def)
qed

lemma not_found_extraction: "get_stocks_from_url not_found_env url = []"
  by (simp add: get_stocks_from_url_def not_found_env_def)

lemma AAPL_neq_TSLA: "str ''AAPL'' \<noteq> str ''TSLA''"
  by (simp add: str_def)

section \<open>The diff\<close>

text \<open>
  Claim C1: for every source and every environment, if the extracted set is empty then
  \<open>get_new_stocks_for_url\<close> returns the empty set and leaves the store as it was: an
  empty or failed extraction never replaces or clears a stored snapshot.
\<close>

theorem empty_extraction_keeps_snapshot:
  "set (get_stocks_from_url e url) = {} \<Longrightarrow>
   get_new_stocks_for_url e store url = ({}, store)"
  by (simp add: get_new_stocks_for_url_def)

theorem empty_extraction_keeps_snapshot_witness:
  "set (get_stocks_from_url not_found_env (str ''https://example.com/screen'')) = {} \<and>
   get_new_stocks_for_url not_found_env
     [str ''https://example.com/screen'' \<mapsto> {str ''AAPL'', str ''MSFT''}]
     (str ''https://example.com/screen'') =
   ({}, [str ''https://example.com/screen'' \<mapsto> {str ''AAPL'', str ''MSFT''}])"
proof -
  have empty: "set (get_stocks_from_url not_found_env (str ''https://example.com/screen'')) = {}"
    by (simp add: not_found_extraction)
  from empty empty_extraction_keeps_snapshot[OF empty] show ?thesis by blast
qed

text \<open>
  Claim C2: for every source, stored snapshot and non-empty extracted set,
  \<open>get_new_stocks_for_url\<close> returns exactly the extracted set minus the stored one
  (the empty set standing for an absent entry) and stores the extracted set in place of
  the old snapshot, whether or not the difference is empty.
\<close>

theorem nonempty_extraction_diff_and_replace:
  "set (get_stocks_from_url e url) \<noteq> {} \<Longrightarrow>
   get_new_stocks_for_url e store url =
     (set (get_stocks_from_url e url) - (case store url of None \<Rightarrow> {} | Some s \<Rightarrow> s),
      store(url \<mapsto> set (get_stocks_from_url e url)))"
  by (simp add: get_new_stocks_for_url_def Let_def)

theorem nonempty_extraction_diff_and_replace_witness:
  "set (get_stocks_from_url (page_env (Some (str ''example.com'')) symbol_page)
         (str ''https://example.com/screen'')) \<noteq> {} \<and>
   get_new_stocks_for_url (page_env (Some (str ''example.com'')) symbol_page)
     [str ''https://example.com/screen'' \<mapsto> {str ''AAPL''}]
     (str ''https://example.com/screen'') =
   ({str ''TSLA''}, [str ''https://example.com/screen'' \<mapsto> {str ''TSLA'', str ''AAPL''}])"
proof -
  have nonempty: "set (get_stocks_from_url (page_env (Some (str ''example.com'')) symbol_page)
         (str ''https://example.com/screen'')) \<noteq> {}"
    by (simp add: symbol_page_extraction)
  have "{str ''TSLA'', str ''AAPL''} - {str ''AAPL''} = {str ''TSLA''}"
    using AAPL_neq_TSLA by auto
  with nonempty nonempty_extraction_diff_and_replace[OF nonempty,
      of "[str ''https://example.com/screen'' \<mapsto> {str ''AAPL''}]"]
  show ?thesis by (simp add: symbol_page_extraction)
qed

section \<open>The selector stage\<close>

text \<open>
  Claim C5: the selector stage short-circuits. For every document and every list of
  selectors, if the selectors before \<open>s\<close> contribute nothing (no accepted text, or the
  query raised) and \<open>s\<close> contributes at least one accepted text, then the loop returns
  exactly what \<open>s\<close> contributes, whatever selectors follow; and when the page was
  fetched and parsed, the site-special stage returned nothing and these are the
  selectors of the domain, the set that \<open>get_stocks_from_url\<close> returns is the set of
  the texts \<open>s\<close> contributes.
\<close>

theorem selector_cascade_short_circuits:
  "(\<forall>p\<in>set pre. selector_yield soup p = []) \<Longrightarrow> selector_yield soup s \<noteq> [] \<Longrightarrow>
   selector_loop soup (pre @ s # post) [] = selector_yield soup s \<and>
   (requests_get e url = Inr resp \<and> status_code resp = 200 \<and>
    BeautifulSoup e (content resp) = Inr soup \<and> url_domain e url = Inr domain \<and>
    (py_in (str ''scanx.trade'') domain \<longrightarrow> extract_from_scanx soup = []) \<and>
    selectors_for default_selectors domain = pre @ s # post \<longrightarrow>
    set (get_stocks_from_url e url) = set (selector_yield soup s))"
proof (intro conjI impI)
  assume pre: "\<forall>p\<in>set pre. selector_yield soup p = []" and s: "selector_yield soup s \<noteq> []"
  show "selector_loop soup (pre @ s # post) [] = selector_yield soup s"
    by (rule selector_loop_short_circuit[OF pre s])
  assume page: "requests_get e url = Inr resp \<and> status_code resp = 200 \<and>
    BeautifulSoup e (content resp) = Inr soup \<and> url_domain e url = Inr domain \<and>
    (py_in (str ''scanx.trade'') domain \<longrightarrow> extract_from_scanx soup = []) \<and>
    selectors_for default_selectors domain = pre @ s # post"
  then have "extract_page e url soup = Inr (remdups (selector_yield soup s))"
    using extract_page_short_circuit[OF _ _ _ pre s] by blast
  with page show "set (get_stocks_from_url e url) = set (selector_yield soup s)"
    by (simp add: get_stocks_from_url_def)
qed

theorem selector_cascade_short_circuits_witness:
  "selector_yield symbol_page ''.stock-symbol'' = [] \<and>
   selector_yield symbol_page ''.ticker'' \<noteq> [] \<and>
   selector_yield symbol_page ''.symbol'' = [str ''MSFT''] \<and>
   selector_loop symbol_page
     ([''.stock-symbol''] @ ''.ticker'' #
        [''.symbol'', ''[data-symbol]'', ''.stock'', ''.ticker-symbol'']) [] =
     [str ''AAPL'', str ''TSLA'', str ''AAPL''] \<and>
   set (get_stocks_from_url (page_env (Some (str ''example.com'')) symbol_page)
          (str ''https://example.com/screen'')) = {str ''AAPL'', str ''TSLA''}"
proof -
  let ?e = "page_env (Some (str ''example.com'')) symbol_page"
  let ?url = "str ''https://example.com/screen''"
  have pre: "\<forall>p\<in>set [''.stock-symbol'']. selector_yield symbol_page p = []"
    by (simp add: symbol_page_stock_symbol)
  have s: "selector_yield symbol_page ''.ticker'' \<noteq> []"
    by (simp add: symbol_page_ticker)
  have page: "requests_get ?e ?url = Inr ok_response \<and> status_code ok_response = 200 \<and>
      BeautifulSoup ?e (content ok_response) = Inr symbol_page \<and>
      url_domain ?e ?url = Inr (str ''example.com'') \<and>
      (py_in (str ''scanx.trade'') (str ''example.com'') \<longrightarrow> extract_from_scanx symbol_page = []) \<and>
      selectors_for default_selectors (str ''example.com'') =
        [''.stock-symbol''] @ ''.ticker'' #
          [''.symbol'', ''[data-symbol]'', ''.stock'', ''.ticker-symbol'']"
    by (simp add: page_env_fields domain_example not_scanx_example selectors_example
        ok_response_def)
  from selector_cascade_short_circuits[OF pre s, of
      "[''.symbol'', ''[data-symbol]'', ''.stock'', ''.ticker-symbol'']" ?e ?url ok_response
      "str ''example.com''"] page
  have "selector_loop symbol_page
     ([''.stock-symbol''] @ ''.ticker'' #
        [''.symbol'', ''[data-symbol]'', ''.stock'', ''.ticker-symbol'']) [] =
      selector_yield symbol_page ''.ticker'' \<and>
    set (get_stocks_from_url ?e ?url) = set (selector_yield symbol_page ''.ticker'')"
    by blast
  then have loop: "selector_loop symbol_page
     ([''.stock-symbol''] @ ''.ticker'' #
        [''.symbol'', ''[data-symbol]'', ''.stock'', ''.ticker-symbol'']) [] =
      [str ''AAPL'', str ''TSLA'', str ''AAPL'']"
    and result: "set (get_stocks_from_url ?e ?url) = set [str ''AAPL'', str ''TSLA'', str ''AAPL'']"
    by (simp_all only: symbol_page_ticker)
  have "set [str ''AAPL'', str ''TSLA'', str ''AAPL''] = {str ''AAPL'', str ''TSLA''}"
    by auto
  with result have "set (get_stocks_from_url ?e ?url) = {str ''AAPL'', str ''TSLA''}"
    by (rule trans)
  with symbol_page_stock_symbol s symbol_page_symbol loop show ?thesis by blast
qed

section \<open>The site-special stage\<close>

subsection \<open>The example scanX pages\<close>

lemma long_name_clean: "py_strip long_name = long_name" "re_sub_ws long_name = long_name"
  by (simp_all add: long_name_def str_eval)

lemma long_name_facts: "length long_name = 54" "py_in (str '' '') long_name"
  by (simp_all add: py_in_space) (simp_all add: long_name_def str_def)

lemma scanx_name_long_name: "scanx_name long_name = [long_name]"
  by (simp add: scanx_name_def long_name_clean long_name_facts Let_def) (simp add: long_name_def str_def)

lemma scanx_table_page_extraction: "extract_from_scanx scanx_table_page = [long_name]"
  by (simp add: extract_from_scanx_def scanx_table_page_def leaf_def long_name_clean
      scanx_name_long_name)

lemma listing_text_clean: "py_strip listing_text = listing_text" "re_sub_ws listing_text = listing_text"
  by (simp_all add: listing_text_def str_eval)

lemma listing_text_facts: "length listing_text = 60" "py_in (str '' '') listing_text"
  "py_in (str ''NSE'') listing_text"
  by (simp_all add: py_in_space) (simp_all add: listing_text_def str_def)

lemma scanx_potential_listing_text: "scanx_potential listing_text = [listing_text]"
  by (simp add: scanx_potential_def listing_text_clean listing_text_facts Let_def)
     (simp add: listing_text_def str_def)

lemma scanx_text_page_extraction: "extract_from_scanx scanx_text_page = [listing_text]"
  by (simp add: extract_from_scanx_def scanx_text_page_def leaf_def listing_text_clean
      scanx_potential_listing_text stock_name_selector_def)

lemma scanx_domain:
  "url_domain (page_env (Some (str ''scanx.trade'')) soup) url = Inr (str ''scanx.trade'')"
  by (simp add: url_domain_def page_env_fields ascii_lower_def str_def is_upper_def)

lemma scanx_in_domain: "py_in (str ''scanx.trade'') (str ''scanx.trade'')"
  by (simp add: str_def)

lemma scanx_stage_returns:
  "extract_from_scanx soup \<noteq> [] \<Longrightarrow>
   get_stocks_from_url (page_env (Some (str ''scanx.trade'')) soup) url =
     remdups (extract_from_scanx soup)"
  by (simp add: get_stocks_page_env extract_page_def scanx_domain scanx_in_domain)

lemma attribute_error_text:
  "\<not> py_in (str ''CORS'') (exc_str AttributeError)"
  "\<not> py_in (str ''ClientException'') (exc_str AttributeError)"
  by (simp_all add: str_def)

lemma no_hostname_domain: "urlparse_hostname e url = Inr None \<Longrightarrow> url_domain e url = Inl AttributeError"
  by (simp add: url_domain_def)

lemma no_hostname_page:
  "urlparse_hostname e url = Inr None \<Longrightarrow> extract_page e url soup = Inl AttributeError"
  by (simp add: extract_page_def no_hostname_domain)

lemma on_exception_attribute_error: "on_exception e url AttributeError = []"
  by (simp only: on_exception_def attribute_error_text simp_thms if_False)

lemma on_exception_plain:
  "\<not> py_in (str ''CORS'') (exc_str err) \<and> \<not> py_in (str ''ClientException'') (exc_str err) \<Longrightarrow>
   on_exception e url err = []"
  by (simp add: on_exception_def)

lemma no_hostname_extraction:
  assumes host: "urlparse_hostname e url = Inr None"
    and request: "\<forall>err. requests_get e url = Inl err \<longrightarrow>
      \<not> py_in (str ''CORS'') (exc_str err) \<and> \<not> py_in (str ''ClientException'') (exc_str err)"
    and parse: "\<forall>resp err. requests_get e url = Inr resp \<and> BeautifulSoup e (content resp) = Inl err \<longrightarrow>
      \<not> py_in (str ''CORS'') (exc_str err) \<and> \<not> py_in (str ''ClientException'') (exc_str err)"
  shows "get_stocks_from_url e url = []"
proof (cases "requests_get e url")
  case (Inl err)
  with request show ?thesis
    by (simp add: get_stocks_from_url_def on_exception_plain)
next
  case (Inr resp)
  show ?thesis
  proof (cases "BeautifulSoup e (content resp)")
    case (Inl err)
    with parse Inr have "on_exception e url err = []"
      by (intro on_exception_plain) blast
    with Inr Inl show ?thesis by (simp add: get_stocks_from_url_def)
  next
    case soup: (Inr soup)
    with Inr show ?thesis
      by (simp add: get_stocks_from_url_def no_hostname_page[OF host]
          on_exception_attribute_error)
  qed
qed

lemma cors_text: "py_in (str ''CORS'') (str ''Max retries exceeded with url: /CORS-screen'')"
  by (simp add: str_def)

lemma cors_env_extraction: "get_stocks_from_url cors_env url = [long_name]"
  by (simp add: get_stocks_from_url_def cors_env_def on_exception_def cors_text
      get_stocks_with_fallback_def ok_response_def scanx_table_page_extraction)


text \<open>
  Claim C9: the site-special stage of a \<open>scanx.trade\<close> source does not go through
  the validator. On a page whose table row starts with a name of 54 characters, Method 1
  returns that name, and on a page whose only text element holds 60 characters with a
  space and \<open>NSE\<close> in them, Method 3 returns that text; the validator rejects both,
  since it rejects every text of more than 50 characters.
\<close>

theorem scanx_stage_bypasses_validator:
  "get_stocks_from_url (page_env (Some (str ''scanx.trade'')) scanx_table_page) scanx_url =
     [long_name] \<and>
   \<not> is_valid_stock_symbol long_name \<and>
   get_stocks_from_url (page_env (Some (str ''scanx.trade'')) scanx_text_page) scanx_url =
     [listing_text] \<and>
   length listing_text = 60 \<and>
   \<not> is_valid_stock_symbol listing_text"
  by (simp add: scanx_stage_returns scanx_table_page_extraction scanx_text_page_extraction
      is_valid_overlong long_name_facts listing_text_facts)

section \<open>A URL without a hostname\<close>

text \<open>
  Claim C10, as stated: for every URL whose parse yields no hostname,
  \<open>get_stocks_from_url\<close> returns the empty list. The handler that swallows an
  exception also looks at its text: when the primary request itself fails and the text
  of the error contains \<open>CORS\<close>, the handler returns what
  \<open>_get_stocks_with_fallback\<close> extracts from a second request, and that path never
  asks for the hostname. Here the second request succeeds and the result is not empty.
\<close>

theorem no_hostname_fallback_counterexample:
  "urlparse_hostname cors_env pasted_url = Inr None \<and>
   get_stocks_from_url cors_env pasted_url = [long_name] \<and>
   get_stocks_from_url cors_env pasted_url \<noteq> []"
  by (simp add: cors_env_extraction) (simp add: cors_env_def)

lemma get_stocks_from_url_unfold:
  "get_stocks_from_url e url =
     (case requests_get e url of
        Inl err \<Rightarrow>
          if py_in (str ''CORS'') (exc_str err) \<or> py_in (str ''ClientException'') (exc_str err)
          then get_stocks_with_fallback e url else []
      | Inr resp \<Rightarrow>
          if status_code resp = 200
          then (case BeautifulSoup e (content resp) of
                  Inl err \<Rightarrow>
                    if py_in (str ''CORS'') (exc_str err) \<or>
                       py_in (str ''ClientException'') (exc_str err)
                    then get_stocks_with_fallback e url else []
                | Inr soup \<Rightarrow>
                    (case extract_page e url soup of
                       Inl err \<Rightarrow> on_exception e url err
                     | Inr stocks \<Rightarrow> stocks))
          else [])"
  by (simp add: get_stocks_from_url_def on_exception_def split: sum.split)

lemma no_hostname_result:
  assumes "urlparse_hostname e url = Inr None"
  shows "get_stocks_from_url e url =
     (case requests_get e url of
        Inl err \<Rightarrow>
          if py_in (str ''CORS'') (exc_str err) \<or> py_in (str ''ClientException'') (exc_str err)
          then get_stocks_with_fallback e url else []
      | Inr resp \<Rightarrow>
          if status_code resp = 200
          then (case BeautifulSoup e (content resp) of
                  Inl err \<Rightarrow>
                    if py_in (str ''CORS'') (exc_str err) \<or>
                       py_in (str ''ClientException'') (exc_str err)
                    then get_stocks_with_fallback e url else []
                | Inr soup \<Rightarrow> [])
          else [])"
  unfolding get_stocks_from_url_unfold
  by (simp add: no_hostname_page[OF assms] on_exception_attribute_error split: sum.split)

lemma fallback_unfold:
  "get_stocks_with_fallback e url =
     (case requests_get_fallback e url of
        Inl err \<Rightarrow> []
      | Inr resp \<Rightarrow>
          if status_code resp = 200
          then (case BeautifulSoup e (content resp) of
                  Inl err \<Rightarrow> []
                | Inr soup \<Rightarrow> extract_from_scanx soup)
          else [])"
  by (simp add: get_stocks_with_fallback_def)

text \<open>
  Claim C10, amended: for every URL whose parse yields no hostname,
  \<open>get_stocks_from_url\<close> does not raise. On every fetched page the lowercasing of the
  absent hostname raises \<open>AttributeError\<close>, which the handler swallows, so the result is
  the empty list whenever the primary request returns a response that parses, and also
  when the request or the parse fails with an error whose text contains neither
  \<open>CORS\<close> nor \<open>ClientException\<close>. When the request or the parse fails with such a
  text, the result is exactly what \<open>_get_stocks_with_fallback\<close> returns: the scanX
  extraction of the page of a second request answered with status 200, and the empty
  list when that request fails, is answered otherwise, or its page does not parse.
  Whenever the result is empty, \<open>get_new_stocks_for_url\<close> returns nothing new and
  leaves the snapshot as it was.
\<close>

theorem no_hostname_yields_empty_or_fallback:
  "urlparse_hostname e url = Inr None \<Longrightarrow>
   (\<forall>soup. extract_page e url soup = Inl AttributeError) \<and>
   get_stocks_from_url e url =
     (case requests_get e url of
        Inl err \<Rightarrow>
          if py_in (str ''CORS'') (exc_str err) \<or> py_in (str ''ClientException'') (exc_str err)
          then get_stocks_with_fallback e url else []
      | Inr resp \<Rightarrow>
          if status_code resp = 200
          then (case BeautifulSoup e (content resp) of
                  Inl err \<Rightarrow>
                    if py_in (str ''CORS'') (exc_str err) \<or>
                       py_in (str ''ClientException'') (exc_str err)
                    then get_stocks_with_fallback e url else []
                | Inr soup \<Rightarrow> [])
          else []) \<and>
   get_stocks_with_fallback e url =
     (case requests_get_fallback e url of
        Inl err \<Rightarrow> []
      | Inr resp \<Rightarrow>
          if status_code resp = 200
          then (case BeautifulSoup e (content resp) of
                  Inl err \<Rightarrow> []
                | Inr soup \<Rightarrow> extract_from_scanx soup)
          else []) \<and>
   (get_stocks_from_url e url = [] \<longrightarrow> get_new_stocks_for_url e store url = ({}, store))"
proof (intro conjI allI impI)
  assume host: "urlparse_hostname e url = Inr None"
  show "extract_page e url soup = Inl AttributeError" for soup
    by (rule no_hostname_page[OF host])
  show "get_stocks_from_url e url =
     (case requests_get e url of
        Inl err \<Rightarrow>
          if py_in (str ''CORS'') (exc_str err) \<or> py_in (str ''ClientException'') (exc_str err)
          then get_stocks_with_fallback e url else []
      | Inr resp \<Rightarrow>
          if status_code resp = 200
          then (case BeautifulSoup e (content resp) of
                  Inl err \<Rightarrow>
                    if py_in (str ''CORS'') (exc_str err) \<or>
                       py_in (str ''ClientException'') (exc_str err)
                    then get_stocks_with_fallback e url else []
                | Inr soup \<Rightarrow> [])
          else [])"
    by (rule no_hostname_result[OF host])
  show "get_stocks_with_fallback e url =
     (case requests_get_fallback e url of
        Inl err \<Rightarrow> []
      | Inr resp \<Rightarrow>
          if status_code resp = 200
          then (case BeautifulSoup e (content resp) of
                  Inl err \<Rightarrow> []
                | Inr soup \<Rightarrow> extract_from_scanx soup)
          else [])"
    by (rule fallback_unfold)
  assume "get_stocks_from_url e url = []"
  then show "get_new_stocks_for_url e store url = ({}, store)"
    by (intro diff_empty) simp
qed

theorem no_hostname_yields_empty_or_fallback_witness:
  "urlparse_hostname (page_env None scanx_table_page) pasted_url = Inr None \<and>
   extract_from_scanx scanx_table_page = [long_name] \<and>
   extract_page (page_env None scanx_table_page) pasted_url scanx_table_page =
     Inl AttributeError \<and>
   get_stocks_from_url (page_env None scanx_table_page) pasted_url = [] \<and>
   get_new_stocks_for_url (page_env None scanx_table_page) [pasted_url \<mapsto> {long_name}]
     pasted_url = ({}, [pasted_url \<mapsto> {long_name}])"
proof -
  let ?e = "page_env None scanx_table_page"
  have host: "urlparse_hostname ?e pasted_url = Inr None"
    by (simp add: page_env_fields)
  note result = no_hostname_yields_empty_or_fallback[OF host, of "[pasted_url \<mapsto> {long_name}]"]
  from result have page: "extract_page ?e pasted_url scanx_table_page = Inl AttributeError"
    by blast
  from result have "get_stocks_from_url ?e pasted_url =
      (case requests_get ?e pasted_url of
        Inl err \<Rightarrow>
          if py_in (str ''CORS'') (exc_str err) \<or> py_in (str ''ClientException'') (exc_str err)
          then get_stocks_with_fallback ?e pasted_url else []
      | Inr resp \<Rightarrow>
          if status_code resp = 200
          then (case BeautifulSoup ?e (content resp) of
                  Inl err \<Rightarrow>
                    if py_in (str ''CORS'') (exc_str err) \<or>
                       py_in (str ''ClientException'') (exc_str err)
                    then get_stocks_with_fallback ?e pasted_url else []
                | Inr soup \<Rightarrow> [])
          else [])"
    by (rule conjunct1[OF conjunct2])
  then have empty: "get_stocks_from_url ?e pasted_url = []"
    by (simp add: page_env_fields ok_response_def)
  with result have "get_new_stocks_for_url ?e [pasted_url \<mapsto> {long_name}] pasted_url =
      ({}, [pasted_url \<mapsto> {long_name}])"
    by blast
  with host page empty scanx_table_page_extraction show ?thesis by blast
qed

section \<open>Whitespace normalisation\<close>

lemma single_spaced_Cons:
  "single_spaced (c # xs) =
     ((isspace c \<longrightarrow> c = 32 \<and> (xs = [] \<or> \<not> isspace (hd xs))) \<and> single_spaced xs)"
  by (cases xs) auto

lemma re_sub_ws_Nil_iff: "re_sub_ws s = [] \<longleftrightarrow> s = []"
  by (cases s) auto

lemma hd_re_sub_ws: "s \<noteq> [] \<Longrightarrow> \<not> isspace (hd s) \<Longrightarrow> hd (re_sub_ws s) = hd s"
  by (cases s) auto

lemma single_spaced_re_sub_ws: "single_spaced (re_sub_ws t)"
proof (induction t rule: re_sub_ws.induct)
  case 1
  show ?case by simp
next
  case (2 c cs)
  show ?case
  proof (cases "isspace c")
    case True
    let ?r = "dropWhile isspace cs"
    have "re_sub_ws ?r = [] \<or> \<not> isspace (hd (re_sub_ws ?r))"
    proof (cases "?r = []")
      case True
      then show ?thesis by (simp only: re_sub_ws.simps simp_thms)
    next
      case False
      then have "\<not> isspace (hd ?r)" by (rule hd_dropWhile)
      with False show ?thesis by (simp add: hd_re_sub_ws)
    qed
    with True 2 show ?thesis by (simp add: single_spaced_Cons)
  next
    case False
    with 2 show ?thesis by (simp add: single_spaced_Cons)
  qed
qed

lemma re_sub_ws_single_spaced: "single_spaced s \<Longrightarrow> re_sub_ws s = s"
proof (induction s)
  case Nil
  show ?case by simp
next
  case (Cons c cs)
  from Cons.prems have tail: "single_spaced cs"
    and sp: "isspace c \<longrightarrow> c = 32 \<and> (cs = [] \<or> \<not> isspace (hd cs))"
    by (simp_all add: single_spaced_Cons)
  show ?case
  proof (cases "isspace c")
    case True
    with sp have "c = 32" and "cs = [] \<or> \<not> isspace (hd cs)" by simp_all
    then have "dropWhile isspace cs = cs" by (cases cs) auto
    with True \<open>c = 32\<close> Cons.IH[OF tail] show ?thesis by simp
  next
    case False
    with Cons.IH[OF tail] show ?thesis by simp
  qed
qed

lemma single_spaced_append:
  "single_spaced (xs @ ys) \<Longrightarrow> single_spaced xs \<and> single_spaced ys"
proof (induction xs)
  case Nil
  then show ?case by simp
next
  case (Cons c xs)
  from Cons.prems have rest: "single_spaced (xs @ ys)"
    and sp: "isspace c \<longrightarrow> c = 32 \<and> (xs @ ys = [] \<or> \<not> isspace (hd (xs @ ys)))"
    by (simp_all add: single_spaced_Cons)
  from sp have "isspace c \<longrightarrow> c = 32 \<and> (xs = [] \<or> \<not> isspace (hd xs))"
    by (cases xs) auto
  with Cons.IH[OF rest] show ?case by (simp add: single_spaced_Cons)
qed

lemma py_strip_infix: "\<exists>a b. s = a @ py_strip s @ b"
proof -
  let ?d = "dropWhile isspace s"
  have "?d = rev (takeWhile isspace (rev ?d) @ dropWhile isspace (rev ?d))"
    by (simp only: takeWhile_dropWhile_id rev_rev_ident)
  also have "\<dots> = rev (dropWhile isspace (rev ?d)) @ rev (takeWhile isspace (rev ?d))"
    by (rule rev_append)
  finally have "?d = py_strip s @ rev (takeWhile isspace (rev ?d))"
    by (simp only: py_strip_def)
  moreover have "s = takeWhile isspace s @ ?d" by simp
  ultimately have "s = takeWhile isspace s @ py_strip s @ rev (takeWhile isspace (rev ?d))"
    by simp
  then show ?thesis by blast
qed

lemma single_spaced_py_strip: "single_spaced s \<Longrightarrow> single_spaced (py_strip s)"
proof -
  assume s: "single_spaced s"
  obtain a b where "s = a @ py_strip s @ b" using py_strip_infix by blast
  with s have "single_spaced (a @ py_strip s @ b)" by simp
  then show ?thesis using single_spaced_append by blast
qed

lemma py_strip_ends:
  "py_strip s = [] \<or> (\<not> isspace (hd (py_strip s)) \<and> \<not> isspace (last (py_strip s)))"
proof (cases "py_strip s = []")
  case True
  then show ?thesis by simp
next
  case False
  let ?d = "dropWhile isspace s"
  let ?r = "dropWhile isspace (rev ?d)"
  have strip: "py_strip s = rev ?r" by (simp add: py_strip_def)
  with False have r: "?r \<noteq> []" by simp
  have d: "?d \<noteq> []"
  proof
    assume "?d = []"
    then have "?r = []" by (simp only: rev.simps dropWhile.simps)
    with r show False by (rule notE)
  qed
  have "\<not> isspace (hd ?r)" using r by (rule hd_dropWhile)
  then have last: "\<not> isspace (last (py_strip s))" using r by (simp add: strip last_rev)
  have "last (takeWhile isspace (rev ?d) @ ?r) = last ?r" using r by (rule last_appendR)
  then have "last (rev ?d) = last ?r" by (simp only: takeWhile_dropWhile_id)
  then have "hd ?d = last ?r" by (simp only: last_rev)
  moreover have "\<not> isspace (hd ?d)" using d by (rule hd_dropWhile)
  ultimately have "\<not> isspace (hd (py_strip s))" using r by (simp add: strip hd_rev)
  with last show ?thesis by simp
qed

lemma py_strip_fixed:
  assumes "s = [] \<or> (\<not> isspace (hd s) \<and> \<not> isspace (last s))"
  shows "py_strip s = s"
proof (cases "s = []")
  case True
  then show ?thesis by (simp add: py_strip_def)
next
  case False
  with assms have h: "\<not> isspace (hd s)" and l: "\<not> isspace (last s)" by simp_all
  from False h have "dropWhile isspace s = s" by (cases s) auto
  moreover from False l have "dropWhile isspace (rev s) = rev s"
    by (cases "rev s") (auto simp: hd_rev[symmetric])
  ultimately show ?thesis by (simp add: py_strip_def)
qed

lemma py_strip_idem: "py_strip (py_strip s) = py_strip s"
  by (rule py_strip_fixed) (rule py_strip_ends)

lemma normalised: 
  "py_strip (py_strip (re_sub_ws t)) = py_strip (re_sub_ws t)"
  "re_sub_ws (py_strip (re_sub_ws t)) = py_strip (re_sub_ws t)"
  by (simp_all add: py_strip_idem re_sub_ws_single_spaced single_spaced_py_strip
      single_spaced_re_sub_ws)


section \<open>What the stages return\<close>

lemma accepted_texts_trimmed: "x \<in> set (accepted_texts elements) \<Longrightarrow> py_strip x = x"
  by (auto simp: accepted_texts_def py_strip_idem)

lemma selector_loop_trimmed:
  "\<forall>x\<in>set stocks. py_strip x = x \<Longrightarrow> \<forall>x\<in>set (selector_loop soup selectors stocks). py_strip x = x"
proof (induction selectors arbitrary: stocks)
  case Nil
  then show ?case by simp
next
  case (Cons selector selectors)
  show ?case
  proof (cases "select soup selector")
    case (Inl err)
    with Cons show ?thesis by simp
  next
    case (Inr elements)
    have all: "\<forall>x\<in>set (stocks @ accepted_texts elements). py_strip x = x"
      using Cons.prems accepted_texts_trimmed by auto
    from Cons.IH[OF all] all Inr show ?thesis by (simp add: Let_def)
  qed
qed

lemma table_rows_trimmed:
  "\<forall>x\<in>set stocks. py_strip x = x \<Longrightarrow> \<forall>x\<in>set (fst (table_rows rows stocks)). py_strip x = x"
proof (induction rows arbitrary: stocks)
  case Nil
  then show ?case by simp
next
  case (Cons row rows)
  show ?case
  proof (cases "select row ''td, th''")
    case (Inl err)
    with Cons.prems show ?thesis by simp
  next
    case (Inr cells)
    show ?thesis
    proof (cases cells)
      case Nil
      with Inr Cons show ?thesis by simp
    next
      case (Cons cell others)
      let ?stocks = "stocks @ accepted_texts [cell] @
          accepted_texts (take (min (length (cell # others)) 3 - 1) others)"
      have "\<forall>x\<in>set ?stocks. py_strip x = x"
        using Cons.prems accepted_texts_trimmed by auto
      from Cons.IH[OF this] Inr Cons show ?thesis by simp
    qed
  qed
qed

lemma extract_from_tables_trimmed:
  assumes "x \<in> set (extract_from_tables soup)"
  shows "py_strip x = x"
proof (cases "select soup ''tr''")
  case (Inl err)
  with assms show ?thesis by (simp add: extract_from_tables_def)
next
  case rows: (Inr rows)
  obtain stocks raised where loop: "table_rows rows [] = (stocks, raised)"
    by (cases "table_rows rows []")
  have stocks: "\<forall>x\<in>set stocks. py_strip x = x"
    using table_rows_trimmed[of "[]" rows] loop by simp
  show ?thesis
  proof (cases "raised = None \<and> stocks = []")
    case False
    with assms rows loop have "x \<in> set stocks"
      by (cases raised) (auto simp: extract_from_tables_def)
    with stocks show ?thesis by blast
  next
    case True
    show ?thesis
    proof (cases "select soup stock_name_selector")
      case (Inl err)
      with assms rows loop True show ?thesis by (simp add: extract_from_tables_def)
    next
      case (Inr stock_name_elements)
      with assms rows loop True have "x \<in> set (accepted_texts stock_name_elements)"
        by (simp add: extract_from_tables_def)
      then show ?thesis by (rule accepted_texts_trimmed)
    qed
  qed
qed

lemma scanx_name_normalised:
  "x \<in> set (scanx_name text) \<Longrightarrow> py_strip x = x \<and> re_sub_ws x = x"
  by (auto simp: scanx_name_def Let_def normalised split: if_splits)

lemma scanx_potential_normalised:
  "x \<in> set (scanx_potential text) \<Longrightarrow> py_strip x = x \<and> re_sub_ws x = x"
  by (auto simp: scanx_potential_def Let_def normalised split: if_splits)

lemma scanx_rows_normalised:
  "\<forall>x\<in>set stocks. py_strip x = x \<and> re_sub_ws x = x \<Longrightarrow>
   \<forall>x\<in>set (fst (scanx_rows rows stocks)). py_strip x = x \<and> re_sub_ws x = x"
proof (induction rows arbitrary: stocks)
  case Nil
  then show ?case by simp
next
  case (Cons row rows)
  show ?case
  proof (cases "select row ''td''")
    case (Inl err)
    with Cons.prems show ?thesis by simp
  next
    case (Inr cells)
    show ?thesis
    proof (cases cells)
      case Nil
      with Inr Cons show ?thesis by simp
    next
      case (Cons cell others)
      have "\<forall>x\<in>set (stocks @ scanx_name (py_strip (get_text cell))).
          py_strip x = x \<and> re_sub_ws x = x"
        using Cons.prems scanx_name_normalised by auto
      from Cons.IH[OF this] Inr Cons show ?thesis by simp
    qed
  qed
qed

lemma concat_scanx_name_normalised:
  "x \<in> set (concat (map (\<lambda>el. scanx_name (py_strip (get_text el))) elements)) \<Longrightarrow>
   py_strip x = x \<and> re_sub_ws x = x"
  using scanx_name_normalised by auto

lemma concat_scanx_potential_normalised:
  "x \<in> set (concat (map (\<lambda>el. scanx_potential (py_strip (get_text el))) elements)) \<Longrightarrow>
   py_strip x = x \<and> re_sub_ws x = x"
  using scanx_potential_normalised by auto

lemma extract_from_scanx_normalised:
  assumes "x \<in> set (extract_from_scanx soup)"
  shows "py_strip x = x \<and> re_sub_ws x = x"
proof (cases "select soup ''table tbody tr''")
  case (Inl err)
  with assms show ?thesis by (simp add: extract_from_scanx_def)
next
  case rows: (Inr table_rows)
  obtain stocks raised where loop: "scanx_rows table_rows [] = (stocks, raised)"
    by (cases "scanx_rows table_rows []")
  have stocks: "\<forall>x\<in>set stocks. py_strip x = x \<and> re_sub_ws x = x"
    using scanx_rows_normalised[of "[]" table_rows] loop by simp
  show ?thesis
  proof (cases "raised = None \<and> stocks = []")
    case False
    with assms rows loop have "x \<in> set stocks"
      by (cases raised) (auto simp: extract_from_scanx_def)
    with stocks show ?thesis by blast
  next
    case True
    show ?thesis
    proof (cases "select soup stock_name_selector")
      case (Inl err)
      with assms rows loop True show ?thesis by (simp add: extract_from_scanx_def)
    next
      case named: (Inr stock_elements)
      let ?names = "concat (map (\<lambda>el. scanx_name (py_strip (get_text el))) stock_elements)"
      show ?thesis
      proof (cases "?names = []")
        case False
        with assms rows loop True named have "x \<in> set ?names"
          by (simp add: extract_from_scanx_def Let_def)
        then show ?thesis by (rule concat_scanx_name_normalised)
      next
        case empty: True
        show ?thesis
        proof (cases "select soup ''td, div, span''")
          case (Inl err)
          with assms rows loop True named empty show ?thesis
            by (simp add: extract_from_scanx_def Let_def)
        next
          case (Inr all_text_elements)
          with assms rows loop True named empty
          have "x \<in> set (concat (map (\<lambda>el. scanx_potential (py_strip (get_text el)))
              all_text_elements))"
            by (simp add: extract_from_scanx_def Let_def)
          then show ?thesis by (rule concat_scanx_potential_normalised)
        qed
      qed
    qed
  qed
qed

lemma extract_page_trimmed:
  assumes "extract_page e url soup = Inr stocks" and "x \<in> set stocks"
  shows "py_strip x = x"
proof (cases "url_domain e url")
  case (Inl err)
  with assms show ?thesis by (simp add: extract_page_def)
next
  case domain: (Inr domain)
  let ?scanx = "if py_in (str ''scanx.trade'') domain then extract_from_scanx soup else []"
  have scanx: "\<forall>x\<in>set ?scanx. py_strip x = x"
    using extract_from_scanx_normalised by auto
  show ?thesis
  proof (cases "py_in (str ''scanx.trade'') domain \<and> ?scanx \<noteq> []")
    case True
    with assms domain have "x \<in> set ?scanx"
      by (auto simp: extract_page_def Let_def)
    with scanx show ?thesis by blast
  next
    case False
    show ?thesis
    proof (cases "get_default_selectors e url")
      case (Inl err)
      with assms domain False show ?thesis by (auto simp: extract_page_def Let_def)
    next
      case (Inr selectors)
      let ?stocks1 = "selector_loop soup selectors ?scanx"
      have loop: "\<forall>x\<in>set ?stocks1. py_strip x = x"
        using scanx by (rule selector_loop_trimmed)
      from assms domain False Inr
      have "x \<in> set ?stocks1 \<or> x \<in> set (extract_from_tables soup)"
        by (auto simp: extract_page_def Let_def split: if_splits)
      with loop extract_from_tables_trimmed show ?thesis by blast
    qed
  qed
qed

lemma get_stocks_with_fallback_cases:
  "get_stocks_with_fallback e url = [] \<or>
   (\<exists>soup. get_stocks_with_fallback e url = extract_from_scanx soup)"
proof (cases "requests_get_fallback e url")
  case (Inl err)
  then show ?thesis by (simp add: get_stocks_with_fallback_def)
next
  case resp: (Inr resp)
  show ?thesis
  proof (cases "status_code resp = 200")
    case False
    with resp show ?thesis by (simp add: get_stocks_with_fallback_def)
  next
    case True
    show ?thesis
    proof (cases "BeautifulSoup e (content resp)")
      case (Inl err)
      with resp True show ?thesis by (simp add: get_stocks_with_fallback_def)
    next
      case (Inr soup)
      with resp True have "get_stocks_with_fallback e url = extract_from_scanx soup"
        by (simp add: get_stocks_with_fallback_def)
      then show ?thesis by blast
    qed
  qed
qed

lemma get_stocks_with_fallback_trimmed:
  assumes "x \<in> set (get_stocks_with_fallback e url)"
  shows "py_strip x = x"
proof -
  from get_stocks_with_fallback_cases[of e url] assms
  obtain soup where "x \<in> set (extract_from_scanx soup)" by auto
  then show ?thesis using extract_from_scanx_normalised by blast
qed

lemma on_exception_trimmed:
  assumes "x \<in> set (on_exception e url err)"
  shows "py_strip x = x"
proof -
  from assms have "x \<in> set (get_stocks_with_fallback e url)"
    by (auto simp: on_exception_def split: if_splits)
  then show ?thesis by (rule get_stocks_with_fallback_trimmed)
qed

lemma get_stocks_from_url_cases:
  "get_stocks_from_url e url = [] \<or>
   (\<exists>err. get_stocks_from_url e url = on_exception e url err) \<or>
   (\<exists>soup. extract_page e url soup = Inr (get_stocks_from_url e url))"
proof (cases "requests_get e url")
  case (Inl err)
  then have "get_stocks_from_url e url = on_exception e url err"
    by (simp add: get_stocks_from_url_def)
  then show ?thesis by blast
next
  case resp: (Inr resp)
  show ?thesis
  proof (cases "status_code resp = 200")
    case False
    with resp show ?thesis by (simp add: get_stocks_from_url_def)
  next
    case True
    show ?thesis
    proof (cases "BeautifulSoup e (content resp)")
      case (Inl err)
      with resp True have "get_stocks_from_url e url = on_exception e url err"
        by (simp add: get_stocks_from_url_def)
      then show ?thesis by blast
    next
      case soup: (Inr soup)
      show ?thesis
      proof (cases "extract_page e url soup")
        case (Inl err)
        with resp True soup have "get_stocks_from_url e url = on_exception e url err"
          by (simp add: get_stocks_from_url_def)
        then show ?thesis by blast
      next
        case (Inr stocks)
        with resp True soup have "get_stocks_from_url e url = stocks"
          by (simp add: get_stocks_from_url_def)
        with Inr show ?thesis by blast
      qed
    qed
  qed
qed

lemma get_stocks_from_url_trimmed:
  assumes "x \<in> set (get_stocks_from_url e url)"
  shows "py_strip x = x"
proof -
  from get_stocks_from_url_cases[of e url] assms
  consider err where "x \<in> set (on_exception e url err)"
    | soup stocks where "extract_page e url soup = Inr stocks" "x \<in> set stocks"
    by (elim disjE exE) auto
  then show ?thesis
  proof cases
    case 1
    then show ?thesis by (rule on_exception_trimmed)
  next
    case 2
    then show ?thesis by (rule extract_page_trimmed)
  qed
qed

lemma scanx_stage_result:
  assumes "requests_get e url = Inr resp" and "status_code resp = 200"
    and "BeautifulSoup e (content resp) = Inr soup" and "url_domain e url = Inr domain"
    and "py_in (str ''scanx.trade'') domain" and "extract_from_scanx soup \<noteq> []"
  shows "get_stocks_from_url e url = remdups (extract_from_scanx soup)"
proof -
  from assms(4,5,6) have "extract_page e url soup = Inr (remdups (extract_from_scanx soup))"
    by (simp add: extract_page_def)
  with assms(1,2,3) show ?thesis by (simp add: get_stocks_from_url_def)
qed

subsection \<open>The example pages\<close>

lemma tata_two_spaces:
  "py_strip (str ''Tata  Motors'') = str ''Tata  Motors''"
  "re_sub_ws (str ''Tata  Motors'') = str ''Tata Motors''"
  "str ''Tata Motors'' \<noteq> str ''Tata  Motors''"
  by (simp_all add: str_eval)

lemma is_valid_tata_two_spaces: "is_valid_stock_symbol (str ''Tata  Motors'')"
proof -
  have "py_in (str '' '') (py_strip (str ''Tata  Motors''))"
    unfolding tata_two_spaces by (simp add: py_in_space) (simp add: str_def)
  from is_valid_name_branch[OF this] show ?thesis
    by (simp add: tata_two_spaces) (simp add: str_def)
qed

lemma name_page_stock_symbol:
  "selector_yield name_page ''.stock-symbol'' = [str ''Tata  Motors'']"
  by (simp add: selector_yield_def name_page_def accepted_texts_def leaf_def tata_two_spaces
      is_valid_tata_two_spaces)

lemma name_page_extraction:
  "get_stocks_from_url (page_env (Some (str ''example.com'')) name_page) url =
     [str ''Tata  Motors'']"
proof -
  have "extract_page (page_env (Some (str ''example.com'')) name_page) url name_page =
      Inr (remdups (selector_yield name_page ''.stock-symbol''))"
    by (rule extract_page_short_circuit[where pre = "[]", OF domain_example])
       (simp_all add: not_scanx_example selectors_example name_page_stock_symbol)
  then show ?thesis
    by (simp add: get_stocks_page_env name_page_stock_symbol)
qed

lemma ragged_text_name: "scanx_name (py_strip ragged_text) = [str ''Tata Motors Ltd'']"
  by (simp add: scanx_name_def ragged_text_def str_eval Let_def py_in_space)

lemma ragged_page_extraction: "extract_from_scanx ragged_page = [str ''Tata Motors Ltd'']"
  by (simp add: extract_from_scanx_def ragged_page_def leaf_def ragged_text_name)

section \<open>Whitespace of the returned identifiers\<close>

text \<open>
  What holds of every identifier: \<open>get_stocks_from_url\<close> returns no identifier with
  leading or trailing whitespace; the site-special stage returns only identifiers whose
  runs of whitespace are single spaces, and when it returns anything on a fetched
  \<open>scanx.trade\<close> page, its identifiers are the result.
\<close>

lemma identifiers_trimmed_and_scanx_collapsed:
  "(\<forall>x\<in>set (get_stocks_from_url e url). py_strip x = x) \<and>
   (\<forall>x\<in>set (extract_from_scanx soup). py_strip x = x \<and> re_sub_ws x = x) \<and>
   (requests_get e url = Inr resp \<and> status_code resp = 200 \<and>
    BeautifulSoup e (content resp) = Inr soup \<and> url_domain e url = Inr domain \<and>
    py_in (str ''scanx.trade'') domain \<and> extract_from_scanx soup \<noteq> [] \<longrightarrow>
    set (get_stocks_from_url e url) = set (extract_from_scanx soup))"
proof (intro conjI ballI impI)
  fix x
  assume "x \<in> set (get_stocks_from_url e url)"
  then show "py_strip x = x" by (rule get_stocks_from_url_trimmed)
next
  fix x
  assume x: "x \<in> set (extract_from_scanx soup)"
  from extract_from_scanx_normalised[OF x] show "py_strip x = x" by (rule conjunct1)
  from extract_from_scanx_normalised[OF x] show "re_sub_ws x = x" by (rule conjunct2)
next
  assume "requests_get e url = Inr resp \<and> status_code resp = 200 \<and>
    BeautifulSoup e (content resp) = Inr soup \<and> url_domain e url = Inr domain \<and>
    py_in (str ''scanx.trade'') domain \<and> extract_from_scanx soup \<noteq> []"
  then have "get_stocks_from_url e url = remdups (extract_from_scanx soup)"
    using scanx_stage_result by blast
  then show "set (get_stocks_from_url e url) = set (extract_from_scanx soup)" by simp
qed

lemma ragged_page_example:
  "get_stocks_from_url (page_env (Some (str ''scanx.trade'')) ragged_page) scanx_url =
     [str ''Tata Motors Ltd'']"
  by (simp add: scanx_stage_returns ragged_page_extraction)

lemma table_name_page_selectors:
  "selector_loop table_name_page
     [''.stock-symbol'', ''.ticker'', ''.symbol'', ''[data-symbol]'', ''.stock'',
      ''.ticker-symbol''] [] = []"
  by (simp add: table_name_page_def accepted_texts_def)

lemma table_name_page_tables: "extract_from_tables table_name_page = [str ''Tata  Motors'']"
  by (simp add: extract_from_tables_def table_name_page_def accepted_texts_def leaf_def
      tata_two_spaces is_valid_tata_two_spaces)

lemma table_name_page_extraction:
  "get_stocks_from_url (page_env (Some (str ''example.com'')) table_name_page) url =
     [str ''Tata  Motors'']"
proof -
  have "extract_page (page_env (Some (str ''example.com'')) table_name_page) url
      table_name_page = Inr [str ''Tata  Motors'']"
    by (simp add: extract_page_def domain_example not_scanx_example get_default_selectors_def
        selectors_example table_name_page_selectors table_name_page_tables
        del: selector_loop.simps)
  then show ?thesis by (simp add: get_stocks_page_env)
qed

lemma scanx_name_tata: "scanx_name (str ''Tata  Motors'') = [str ''Tata Motors'']"
  by (simp add: scanx_name_def str_eval Let_def py_in_space)

text \<open>
  Claim C6: every identifier that extraction returns has its inner runs of whitespace
  collapsed to one space, in the selector stage, the table stage and the site-special
  stage alike. The site-special stage does so (\<open>re.sub(r'\s+', ' ', ...)\<close> before
  \<open>strip()\<close>), and the validator announces it in its comment; the selector stage and
  the table stage append \<open>get_text().strip()\<close> as it is. On a page of an ordinary
  domain whose \<open>.stock-symbol\<close> cell reads \<open>Tata\<close>, two spaces, \<open>Motors\<close>,
  and on a page whose only table cell reads the same, \<open>get_stocks_from_url\<close> returns
  that text with both spaces, where the site-special test of the same text gives
  \<open>Tata Motors\<close>.
\<close>

theorem selector_and_table_stage_keep_inner_whitespace:
  "get_stocks_from_url (page_env (Some (str ''example.com'')) name_page)
     (str ''https://example.com/screen'') = [str ''Tata  Motors''] \<and>
   get_stocks_from_url (page_env (Some (str ''example.com'')) table_name_page)
     (str ''https://example.com/screen'') = [str ''Tata  Motors''] \<and>
   re_sub_ws (str ''Tata  Motors'') = str ''Tata Motors'' \<and>
   re_sub_ws (str ''Tata  Motors'') \<noteq> str ''Tata  Motors'' \<and>
   scanx_name (str ''Tata  Motors'') = [str ''Tata Motors'']"
  by (simp add: name_page_extraction table_name_page_extraction tata_two_spaces scanx_name_tata)

section \<open>Message formatting\<close>

lemma py_strip_framed:
  assumes "\<not> isspace x" and "\<not> isspace y"
  shows "py_strip (10 # x # mid @ [y, 10]) = x # mid @ [y]"
proof -
  have nl: "isspace 10" by (simp add: isspace_def)
  have "dropWhile isspace (10 # x # mid @ [y, 10]) = x # mid @ [y, 10]"
    using assms(1) nl by simp
  moreover have "rev (x # mid @ [y, 10]) = 10 # y # rev mid @ [x]" by simp
  moreover have "dropWhile isspace (10 # y # rev mid @ [x]) = y # rev mid @ [x]"
    using assms(2) nl by simp
  moreover have "rev (y # rev mid @ [x]) = x # mid @ [y]" by simp
  ultimately show ?thesis by (simp only: py_strip_def)
qed

lemma frame_chars: "\<not> isspace 128680" "\<not> isspace 62"
  by (simp_all add: isspace_def)

lemma plural_case:
  "\<not> (\<exists>stock. new_stocks = [stock]) \<Longrightarrow>
   (case new_stocks of [stock] \<Rightarrow> single stock | _ \<Rightarrow> plural) = plural"
  by (auto split: list.split)

lemma format_single:
  assumes "urlparse_hostname e url = Inr domain"
  shows "\<exists>h t. \<forall>now. format_stock_message e now url [stock] = Inr (h @ strftime now @ t)"
proof -
  define tail where "tail = [10, 10] @ str ''<a href='' @ [34] @ url @ [34] @ str ''>'' @
      [128279] @ str '' View Screener</a''"
  define head where "head = str '' <b>New Stock Alert!</b>'' @
      [10, 10, 128200] @ str '' <b>Stock:</b> '' @ stock @
      [10, 127760] @ str '' <b>Source:</b> '' @ format_domain domain @
      [10, 9200] @ str '' <b>Detected:</b> ''"
  have "format_stock_message e now url [stock] =
      Inr ((128680 # head) @ strftime now @ (tail @ [62]))" for now
  proof -
    have msg: "[10, 128680] @ str '' <b>New Stock Alert!</b>'' @
          [10, 10, 128200] @ str '' <b>Stock:</b> '' @ stock @
          [10, 127760] @ str '' <b>Source:</b> '' @ format_domain domain @
          [10, 9200] @ str '' <b>Detected:</b> '' @ strftime now @
          [10, 10] @ str ''<a href='' @ [34] @ url @ [34] @ str ''>'' @ [128279] @
          str '' View Screener</a>'' @ [10] =
        10 # 128680 # (head @ strftime now @ tail) @ [62, 10]"
      by (simp add: head_def tail_def str_def)
    have "format_stock_message e now url [stock] =
        Inr (py_strip (10 # 128680 # (head @ strftime now @ tail) @ [62, 10]))"
      unfolding msg[symmetric] by (simp add: format_stock_message_def assms)
    moreover have "py_strip (10 # 128680 # (head @ strftime now @ tail) @ [62, 10]) =
        128680 # (head @ strftime now @ tail) @ [62]"
      by (rule py_strip_framed[OF frame_chars])
    ultimately show ?thesis by simp
  qed
  then show ?thesis by blast
qed

lemma format_plural:
  assumes "urlparse_hostname e url = Inr domain"
  shows "\<exists>h t. \<forall>new_stocks. length new_stocks = n \<and> n \<noteq> 1 \<longrightarrow>
      format_stock_message e now url new_stocks =
        Inr (h @ join [10] (map (\<lambda>stock. [8226, 32] @ stock) (take 10 new_stocks)) @ t)"
proof -
  define more_text where "more_text =
      (if n > 10 then [10] @ str ''... and '' @ str_nat (n - 10) @ str '' more'' else [])"
  define head where "head = str '' <b>'' @ str_nat n @
      str '' New Stocks Alert!</b>'' @ [10, 10, 128200] @ str '' <b>New Stocks:</b>'' @ [10]"
  define tail where "tail = more_text @
      [10, 10, 127760] @ str '' <b>Source:</b> '' @ format_domain domain @
      [10, 9200] @ str '' <b>Detected:</b> '' @ strftime now @
      [10, 10] @ str ''<a href='' @ [34] @ url @ [34] @ str ''>'' @
      [128279] @ str '' View Screener</a''"
  have "format_stock_message e now url new_stocks =
      Inr ((128680 # head) @ join [10] (map (\<lambda>stock. [8226, 32] @ stock) (take 10 new_stocks)) @
           (tail @ [62]))"
    if len: "length new_stocks = n" and n: "n \<noteq> 1" for new_stocks
  proof -
    define stocks_list where
      "stocks_list = join [10] (map (\<lambda>stock. [8226, 32] @ stock) (take 10 new_stocks))"
    have plural: "\<not> (\<exists>stock. new_stocks = [stock])" using len n by auto
    have msg: "[10, 128680] @ str '' <b>'' @ str_nat (length new_stocks) @
          str '' New Stocks Alert!</b>'' @
          [10, 10, 128200] @ str '' <b>New Stocks:</b>'' @
          [10] @ stocks_list @
          (if length new_stocks > 10
           then [10] @ str ''... and '' @ str_nat (length new_stocks - 10) @ str '' more''
           else []) @
          [10, 10, 127760] @ str '' <b>Source:</b> '' @ format_domain domain @
          [10, 9200] @ str '' <b>Detected:</b> '' @ strftime now @
          [10, 10] @ str ''<a href='' @ [34] @ url @ [34] @ str ''>'' @ [128279] @
          str '' View Screener</a>'' @ [10] =
        10 # 128680 # (head @ stocks_list @ tail) @ [62, 10]"
      unfolding len by (simp add: head_def tail_def more_text_def str_def)
    have "format_stock_message e now url new_stocks =
        Inr (py_strip (10 # 128680 # (head @ stocks_list @ tail) @ [62, 10]))"
      unfolding msg[symmetric]
      by (simp only: format_stock_message_def assms sum.case plural_case[OF plural] Let_def
          stocks_list_def)
    moreover have "py_strip (10 # 128680 # (head @ stocks_list @ tail) @ [62, 10]) =
        128680 # (head @ stocks_list @ tail) @ [62]"
      by (rule py_strip_framed[OF frame_chars])
    ultimately show ?thesis by (simp add: stocks_list_def)
  qed
  then show ?thesis by blast
qed

lemma format_plural_clock:
  assumes "urlparse_hostname e url = Inr domain" and "length new_stocks \<noteq> 1"
  shows "\<exists>h t. \<forall>now. format_stock_message e now url new_stocks = Inr (h @ strftime now @ t)"
proof -
  define n where "n = length new_stocks"
  define more_text where "more_text =
      (if n > 10 then [10] @ str ''... and '' @ str_nat (n - 10) @ str '' more'' else [])"
  define stocks_list where
    "stocks_list = join [10] (map (\<lambda>stock. [8226, 32] @ stock) (take 10 new_stocks))"
  define head where "head = str '' <b>'' @ str_nat n @
      str '' New Stocks Alert!</b>'' @ [10, 10, 128200] @ str '' <b>New Stocks:</b>'' @ [10] @
      stocks_list @ more_text @
      [10, 10, 127760] @ str '' <b>Source:</b> '' @ format_domain domain @
      [10, 9200] @ str '' <b>Detected:</b> ''"
  define tail where "tail = [10, 10] @ str ''<a href='' @ [34] @ url @ [34] @ str ''>'' @
      [128279] @ str '' View Screener</a''"
  have plural: "\<not> (\<exists>stock. new_stocks = [stock])" using assms(2) by auto
  have "format_stock_message e now url new_stocks =
      Inr ((128680 # head) @ strftime now @ (tail @ [62]))" for now
  proof -
    have msg: "[10, 128680] @ str '' <b>'' @ str_nat (length new_stocks) @
          str '' New Stocks Alert!</b>'' @
          [10, 10, 128200] @ str '' <b>New Stocks:</b>'' @
          [10] @ stocks_list @
          (if length new_stocks > 10
           then [10] @ str ''... and '' @ str_nat (length new_stocks - 10) @ str '' more''
           else []) @
          [10, 10, 127760] @ str '' <b>Source:</b> '' @ format_domain domain @
          [10, 9200] @ str '' <b>Detected:</b> '' @ strftime now @
          [10, 10] @ str ''<a href='' @ [34] @ url @ [34] @ str ''>'' @ [128279] @
          str '' View Screener</a>'' @ [10] =
        10 # 128680 # (head @ strftime now @ tail) @ [62, 10]"
      unfolding n_def[symmetric] by (simp add: head_def tail_def more_text_def str_def)
    have "format_stock_message e now url new_stocks =
        Inr (py_strip (10 # 128680 # (head @ strftime now @ tail) @ [62, 10]))"
      unfolding msg[symmetric]
      by (simp only: format_stock_message_def assms(1) sum.case plural_case[OF plural] Let_def
          stocks_list_def)
    moreover have "py_strip (10 # 128680 # (head @ strftime now @ tail) @ [62, 10]) =
        128680 # (head @ strftime now @ tail) @ [62]"
      by (rule py_strip_framed[OF frame_chars])
    ultimately show ?thesis by simp
  qed
  then show ?thesis by blast
qed

lemma format_shape:
  assumes "urlparse_hostname e url = Inr domain"
  shows "\<exists>h t. \<forall>now. format_stock_message e now url new_stocks = Inr (h @ strftime now @ t)"
proof (cases "length new_stocks = 1")
  case True
  then obtain stock where "new_stocks = [stock]"
    by (cases new_stocks) auto
  then show ?thesis using format_single[OF assms] by simp
next
  case False
  then show ?thesis by (rule format_plural_clock[OF assms])
qed

lemma str_nat_not_Nil: "str_nat n \<noteq> []"
  by (subst str_nat.simps) simp

lemma str_nat_inj: "str_nat m = str_nat n \<Longrightarrow> m = n"
proof (induction m arbitrary: n rule: str_nat.induct)
  case (1 m)
  show ?case
  proof (cases "m < 10")
    case small: True
    show ?thesis
    proof (cases "n < 10")
      case True
      with small "1.prems" show ?thesis
        by (simp add: str_nat.simps[of m] str_nat.simps[of n])
    next
      case False
      with small "1.prems" have "[48 + m] = str_nat (n div 10) @ [48 + n mod 10]"
        by (simp add: str_nat.simps[of m] str_nat.simps[of n])
      then have "str_nat (n div 10) = []" by (simp add: Cons_eq_append_conv)
      then show ?thesis using str_nat_not_Nil by blast
    qed
  next
    case large: False
    show ?thesis
    proof (cases "n < 10")
      case True
      with large "1.prems" have "str_nat (m div 10) @ [48 + m mod 10] = [48 + n]"
        by (simp add: str_nat.simps[of m] str_nat.simps[of n])
      then have "str_nat (m div 10) = []" by (simp add: append_eq_Cons_conv)
      then show ?thesis using str_nat_not_Nil by blast
    next
      case False
      with large "1.prems"
      have "str_nat (m div 10) @ [48 + m mod 10] = str_nat (n div 10) @ [48 + n mod 10]"
        by (simp add: str_nat.simps[of m] str_nat.simps[of n])
      then have "str_nat (m div 10) = str_nat (n div 10)" and last: "m mod 10 = n mod 10"
        by simp_all
      with "1.IH"[OF large] have "m div 10 = n div 10" by blast
      with last show ?thesis by (metis div_mult_mod_eq)
    qed
  qed
qed

lemma two_digits_inj: "(two_digits a = two_digits b) = (a = b)"
proof
  assume "two_digits a = two_digits b"
  then have "a div 10 = b div 10" and "a mod 10 = b mod 10"
    by (simp_all add: two_digits_def)
  then show "a = b" by (metis div_mult_mod_eq)
qed simp

lemma strftime_eq_iff:
  "(strftime s = strftime t) =
   (year s = year t \<and> month s = month t \<and> day s = day t \<and> hour s = hour t \<and>
    minute s = minute t \<and> second s = second t)"
proof -
  define rest where "rest = (\<lambda>u::datetime. str ''-'' @ two_digits (month u) @ str ''-'' @
      two_digits (day u) @ str '' '' @ two_digits (hour u) @ str '':'' @
      two_digits (minute u) @ str '':'' @ two_digits (second u))"
  have shape: "strftime u = str_nat (year u) @ rest u" for u
    by (simp add: strftime_def rest_def)
  have len: "length (rest s) = length (rest t)"
    by (simp add: rest_def two_digits_def str_def)
  have split: "(rest s = rest t) =
      (two_digits (month s) = two_digits (month t) \<and> two_digits (day s) = two_digits (day t) \<and>
       two_digits (hour s) = two_digits (hour t) \<and>
       two_digits (minute s) = two_digits (minute t) \<and>
       two_digits (second s) = two_digits (second t))"
    by (auto simp: rest_def two_digits_def str_def)
  have "(strftime s = strftime t) = (str_nat (year s) = str_nat (year t) \<and> rest s = rest t)"
    unfolding shape using len by (rule append_eq_append_conv[OF disjI2])
  also have "\<dots> = (year s = year t \<and> rest s = rest t)"
    using str_nat_inj[of "year s" "year t"] by auto
  finally show ?thesis by (simp add: split two_digits_inj)
qed

lemma format_clock:
  assumes "urlparse_hostname e url = Inr domain"
  shows "(format_stock_message e now1 url new_stocks = format_stock_message e now2 url new_stocks)
     = (strftime now1 = strftime now2)"
proof -
  from format_shape[OF assms] obtain h t
    where "\<forall>now. format_stock_message e now url new_stocks = Inr (h @ strftime now @ t)"
    by blast
  then show ?thesis by simp
qed

lemma format_raises:
  "urlparse_hostname e url = Inl err \<Longrightarrow> format_stock_message e now url new_stocks = Inl err"
  by (simp add: format_stock_message_def)

lemma format_order_example:
  assumes "urlparse_hostname e url = Inr domain"
  shows "format_stock_message e now url [str ''AAPL'', str ''TSLA''] \<noteq>
     format_stock_message e now url [str ''TSLA'', str ''AAPL'']"
proof -
  from format_plural[OF assms, of 2 now] obtain h t
    where shape: "\<forall>new_stocks. length new_stocks = 2 \<and> (2::nat) \<noteq> 1 \<longrightarrow>
      format_stock_message e now url new_stocks =
        Inr (h @ join [10] (map (\<lambda>stock. [8226, 32] @ stock) (take 10 new_stocks)) @ t)"
    by blast
  have "format_stock_message e now url [x, y] =
      Inr (h @ join [10] (map (\<lambda>stock. [8226, 32] @ stock) (take 10 [x, y])) @ t)" for x y
    using shape by simp
  then show ?thesis by (simp add: str_def)
qed

text \<open>
  Two readings within one second give the same message, although they are different
  readings.
\<close>

lemma message_within_one_second:
  "half_past_nine \<noteq> half_past_nine_later \<and>
   format_stock_message (page_env (Some (str ''scanx.trade'')) scanx_table_page)
     half_past_nine scanx_url [str ''Tata Motors Ltd''] =
   format_stock_message (page_env (Some (str ''scanx.trade'')) scanx_table_page)
     half_past_nine_later scanx_url [str ''Tata Motors Ltd'']"
  using format_clock[of "page_env (Some (str ''scanx.trade'')) scanx_table_page" scanx_url
      "Some (str ''scanx.trade'')" half_past_nine "[str ''Tata Motors Ltd'']"
      half_past_nine_later]
  by (simp add: page_env_fields strftime_eq_iff half_past_nine_def half_past_nine_later_def)

text \<open>
  Claim C7, as stated: two invocations of \<open>format_stock_message\<close> with the same
  source and the same set of new identifiers produce the identical string. The method
  reads the clock and prints it in the \<open>Detected\<close> line: for the same scanX source
  and the same single identifier, the message of 09:30:00 and the message of 09:35:00
  differ. The method also prints the identifiers in the order of the list it is given,
  and \<open>list(new_stocks)\<close> does not fix the order of a set: for the same source, the
  same reading of the clock and the same set of two identifiers, the message that lists
  AAPL first and the message that lists TSLA first differ.
\<close>

theorem message_depends_on_clock_and_order_counterexample:
  "format_stock_message (page_env (Some (str ''scanx.trade'')) scanx_table_page)
     half_past_nine scanx_url [str ''Tata Motors Ltd''] \<noteq>
   format_stock_message (page_env (Some (str ''scanx.trade'')) scanx_table_page)
     nine_thirty_five scanx_url [str ''Tata Motors Ltd''] \<and>
   set [str ''AAPL'', str ''TSLA''] = set [str ''TSLA'', str ''AAPL''] \<and>
   format_stock_message (page_env (Some (str ''scanx.trade'')) scanx_table_page)
     half_past_nine scanx_url [str ''AAPL'', str ''TSLA''] \<noteq>
   format_stock_message (page_env (Some (str ''scanx.trade'')) scanx_table_page)
     half_past_nine scanx_url [str ''TSLA'', str ''AAPL'']"
proof -
  let ?e = "page_env (Some (str ''scanx.trade'')) scanx_table_page"
  have host: "urlparse_hostname ?e scanx_url = Inr (Some (str ''scanx.trade''))"
    by (simp add: page_env_fields)
  have "strftime half_past_nine \<noteq> strftime nine_thirty_five"
    by (simp add: strftime_eq_iff half_past_nine_def nine_thirty_five_def)
  then have clock: "format_stock_message ?e half_past_nine scanx_url [str ''Tata Motors Ltd''] \<noteq>
      format_stock_message ?e nine_thirty_five scanx_url [str ''Tata Motors Ltd'']"
    by (simp add: format_clock[OF host])
  have "set [str ''AAPL'', str ''TSLA''] = set [str ''TSLA'', str ''AAPL'']" by auto
  with clock format_order_example[OF host, of half_past_nine] show ?thesis by blast
qed

text \<open>
  Claim C7, amended: the message is a function of the source, the list of new
  identifiers in its order, and the reading of the clock down to the second. For every
  source and every list, two invocations produce the identical result if and only if
  their readings of the clock agree in year, month, day, hour, minute and second (the
  microseconds play no part), or \<open>urlparse\<close> raises on the source (then both
  invocations raise that error). Two lists of the same set in different orders may give
  different messages.
\<close>

theorem message_same_iff_same_second:
  "(format_stock_message e now1 url new_stocks = format_stock_message e now2 url new_stocks) =
   ((year now1 = year now2 \<and> month now1 = month now2 \<and> day now1 = day now2 \<and>
     hour now1 = hour now2 \<and> minute now1 = minute now2 \<and> second now1 = second now2) \<or>
    (\<exists>err. urlparse_hostname e url = Inl err))"
proof (cases "urlparse_hostname e url")
  case (Inl err)
  then show ?thesis by (simp add: format_raises)
next
  case (Inr domain)
  then show ?thesis by (simp add: format_clock strftime_eq_iff)
qed

end
